theory Spec2Isabelle
  imports Complex_Main
begin

section \<open>Numbers: IEEE 754 doubles\<close>

text \<open>
  Every amount of the ledger and of the fixed deposits is a JavaScript number, an
  IEEE 754 binary64 value: a finite value, one of the two infinities, or NaN. A finite
  value is kept as the real number it denotes; negative zero is identified with zero,
  which no statement below tells apart. An arithmetic operation computes the exact real
  result and rounds it to the nearest double, a tie going to the even significand.

  The share and dividend models further down keep their amounts as reals: the statements
  about them (C7 to C10) do not depend on the value of any computed amount.
\<close>

datatype number = Finite real | PosInfinity | NegInfinity | NaN

text \<open>
  The integer nearest to \<open>r\<close>, a tie going to the even one.
\<close>

definition rne :: "real \<Rightarrow> int" where
  "rne r =
     (let f = \<lfloor>r\<rfloor>; d = r - of_int f
      in if d < 1 / 2 then f else if 1 / 2 < d then f + 1 else if even f then f else f + 1)"

text \<open>
  The doubles around \<open>x\<close> are the whole multiples of \<open>quantum x\<close>: with
  \<open>e = \<lfloor>log\<^sub>2 \<bar>x\<bar>\<rfloor>\<close> the significand has 53 bits and the spacing is \<open>2\<^bsup>e - 52\<^esup>\<close>;
  below \<open>2\<^bsup>-1022\<^esup>\<close> (the subnormal numbers) the spacing stays \<open>2\<^bsup>-1074\<^esup>\<close>.
\<close>

definition binade :: "real \<Rightarrow> int" where
  "binade x = \<lfloor>log 2 \<bar>x\<bar>\<rfloor>"

definition quantum :: "real \<Rightarrow> real" where
  "quantum x = 2 powr of_int (max (binade x) (- 1022) - 52)"

text \<open>
  The multiple of the spacing nearest to \<open>x\<close>, and the result of an operation whose
  exact value is \<open>x\<close>: an infinity when the rounded magnitude reaches \<open>2\<^bsup>1024\<^esup>\<close>.
\<close>

definition nearest :: "real \<Rightarrow> real" where
  "nearest x = (if x = 0 then 0 else of_int (rne (x / quantum x)) * quantum x)"

definition fl :: "real \<Rightarrow> number" where
  "fl x =
     (let y = nearest x
      in if 2 ^ 1024 \<le> \<bar>y\<bar> then (if 0 < x then PosInfinity else NegInfinity) else Finite y)"

text \<open>
  The operators \<^verbatim>\<open>+\<close>, unary \<^verbatim>\<open>-\<close>, \<^verbatim>\<open>-\<close>, \<^verbatim>\<open><\<close> and \<^verbatim>\<open><=\<close> on numbers. A comparison
  with NaN is false.
\<close>

fun js_add :: "number \<Rightarrow> number \<Rightarrow> number" where
  "js_add NaN b = NaN"
| "js_add a NaN = NaN"
| "js_add PosInfinity NegInfinity = NaN"
| "js_add NegInfinity PosInfinity = NaN"
| "js_add PosInfinity b = PosInfinity"
| "js_add a PosInfinity = PosInfinity"
| "js_add NegInfinity b = NegInfinity"
| "js_add a NegInfinity = NegInfinity"
| "js_add (Finite x) (Finite y) = fl (x + y)"

fun js_neg :: "number \<Rightarrow> number" where
  "js_neg NaN = NaN"
| "js_neg PosInfinity = NegInfinity"
| "js_neg NegInfinity = PosInfinity"
| "js_neg (Finite x) = Finite (- x)"

definition js_sub :: "number \<Rightarrow> number \<Rightarrow> number" where
  "js_sub a b = js_add a (js_neg b)"

fun js_less :: "number \<Rightarrow> number \<Rightarrow> bool" where
  "js_less NaN b = False"
| "js_less a NaN = False"
| "js_less a NegInfinity = False"
| "js_less NegInfinity b = True"
| "js_less PosInfinity b = False"
| "js_less a PosInfinity = True"
| "js_less (Finite x) (Finite y) = (x < y)"

fun js_le :: "number \<Rightarrow> number \<Rightarrow> bool" where
  "js_le NaN b = False"
| "js_le a NaN = False"
| "js_le NegInfinity b = True"
| "js_le a PosInfinity = True"
| "js_le a NegInfinity = False"
| "js_le PosInfinity b = False"
| "js_le (Finite x) (Finite y) = (x \<le> y)"

text \<open>
  The operators \<^verbatim>\<open>*\<close> and \<^verbatim>\<open>/\<close>.
\<close>

fun js_mul :: "number \<Rightarrow> number \<Rightarrow> number" where
  "js_mul NaN b = NaN"
| "js_mul a NaN = NaN"
| "js_mul (Finite x) (Finite y) = fl (x * y)"
| "js_mul (Finite x) PosInfinity =
     (if x = 0 then NaN else if 0 < x then PosInfinity else NegInfinity)"
| "js_mul (Finite x) NegInfinity =
     (if x = 0 then NaN else if 0 < x then NegInfinity else PosInfinity)"
| "js_mul PosInfinity (Finite y) =
     (if y = 0 then NaN else if 0 < y then PosInfinity else NegInfinity)"
| "js_mul NegInfinity (Finite y) =
     (if y = 0 then NaN else if 0 < y then NegInfinity else PosInfinity)"
| "js_mul PosInfinity PosInfinity = PosInfinity"
| "js_mul NegInfinity NegInfinity = PosInfinity"
| "js_mul PosInfinity NegInfinity = NegInfinity"
| "js_mul NegInfinity PosInfinity = NegInfinity"

fun js_div :: "number \<Rightarrow> number \<Rightarrow> number" where
  "js_div NaN b = NaN"
| "js_div a NaN = NaN"
| "js_div (Finite x) (Finite y) =
     (if y = 0 then (if x = 0 then NaN else if 0 < x then PosInfinity else NegInfinity)
      else fl (x / y))"
| "js_div (Finite x) PosInfinity = Finite 0"
| "js_div (Finite x) NegInfinity = Finite 0"
| "js_div PosInfinity (Finite y) = (if 0 \<le> y then PosInfinity else NegInfinity)"
| "js_div NegInfinity (Finite y) = (if 0 \<le> y then NegInfinity else PosInfinity)"
| "js_div PosInfinity b = NaN"
| "js_div NegInfinity b = NaN"

text \<open>
  \<^verbatim>\<open>Math.max\<close> of two numbers. \<^verbatim>\<open>Math.round(x)\<close> is \<open>\<lfloor>x + 1/2\<rfloor>\<close>, computed
  exactly; it is a double whenever \<open>x\<close> is one.
\<close>

fun Math_max :: "number \<Rightarrow> number \<Rightarrow> number" where
  "Math_max NaN b = NaN"
| "Math_max a NaN = NaN"
| "Math_max a b = (if js_less a b then b else a)"

fun Math_round :: "number \<Rightarrow> number" where
  "Math_round (Finite x) = Finite (of_int \<lfloor>x + 1 / 2\<rfloor>)"
| "Math_round a = a"

text \<open>
  \<^verbatim>\<open>Math.pow\<close>, with the special cases of the ECMAScript operation
  \<^verbatim>\<open>Number::exponentiate\<close>. For a finite base and a finite exponent other than zero
  the standard leaves the accuracy of the result to the implementation; the model takes
  the correctly rounded power.
\<close>

definition odd_integer :: "real \<Rightarrow> bool" where
  "odd_integer e = (e = of_int \<lfloor>e\<rfloor> \<and> odd \<lfloor>e\<rfloor>)"

fun Math_pow :: "number \<Rightarrow> number \<Rightarrow> number" where
  "Math_pow b NaN = NaN"
| "Math_pow b (Finite e) =
     (if e = 0 then Finite 1
      else (case b of
              NaN \<Rightarrow> NaN
            | PosInfinity \<Rightarrow> if 0 < e then PosInfinity else Finite 0
            | NegInfinity \<Rightarrow>
                if 0 < e then (if odd_integer e then NegInfinity else PosInfinity) else Finite 0
            | Finite x \<Rightarrow>
                if x = 0 then (if 0 < e then Finite 0 else PosInfinity)
                else if 0 < x then fl (x powr e)
                else if e = of_int \<lfloor>e\<rfloor>
                  then (if odd \<lfloor>e\<rfloor> then fl (- ((- x) powr e)) else fl ((- x) powr e))
                else NaN))"
| "Math_pow b PosInfinity =
     (case b of
        NaN \<Rightarrow> NaN
      | Finite x \<Rightarrow> if 1 < \<bar>x\<bar> then PosInfinity else if \<bar>x\<bar> = 1 then NaN else Finite 0
      | _ \<Rightarrow> PosInfinity)"
| "Math_pow b NegInfinity =
     (case b of
        NaN \<Rightarrow> NaN
      | Finite x \<Rightarrow> if 1 < \<bar>x\<bar> then Finite 0 else if \<bar>x\<bar> = 1 then NaN else PosInfinity
      | _ \<Rightarrow> Finite 0)"

text \<open>
  \<^verbatim>\<open>!x\<close> for a number \<open>x\<close>: zero and NaN are falsy.
\<close>

definition falsy :: "number \<Rightarrow> bool" where
  "falsy n = (n = Finite 0 \<or> n = NaN)"

text \<open>
  Two numbers in order, the smaller one not negative; and two positive reals whose
  logarithms differ by at most \<open>c\<close>, the measure of the rounding error below.
\<close>

definition le_nn :: "number \<Rightarrow> number \<Rightarrow> bool" where
  "le_nn a b = (js_le (Finite 0) a \<and> js_le a b)"

definition log_close :: "real \<Rightarrow> real \<Rightarrow> real \<Rightarrow> bool" where
  "log_close c x y = (0 < x \<and> 0 < y \<and> \<bar>ln x - ln y\<bar> \<le> c)"

section \<open>Account ledger: the transaction handler of stable-server.js\<close>

text \<open>
  The in-memory server keeps \<^verbatim>\<open>accounts\<close>, \<^verbatim>\<open>transactions\<close> and
  \<^verbatim>\<open>transactionIdCounter\<close>. An account object has the fields written by the
  account-creation handler, the only place that creates one: among them there is no
  minimum balance. The balance is \<^verbatim>\<open>parseFloat(initial_deposit)\<close> at creation, a
  number. Account numbers, bank, branch and the timestamps \<^verbatim>\<open>created_at\<close> and
  \<^verbatim>\<open>updated_at\<close> are left out. The id of a transaction,
  \<^verbatim>\<open>transaction_\<close> followed by the counter, is kept as the counter.
\<close>

record account =
  acc_id :: string
  acc_customer_id :: string
  account_type :: string
  balance :: number
  acc_status :: string

record transaction =
  txn_id :: nat
  txn_account_id :: string
  txn_type :: string
  amount :: number
  description :: string
  balance_before :: number
  balance_after :: number
  txn_status :: string

record server =
  accounts :: "account list"
  transactions :: "transaction list"
  transactionIdCounter :: nat

text \<open>
  The request body. \<open>req_amount\<close> is \<open>None\<close> when \<^verbatim>\<open>!amount\<close> holds of the
  field (absent, zero, the empty string), and otherwise the number that
  \<^verbatim>\<open>parseFloat(amount)\<close> returns: NaN for a text such as \<^verbatim>\<open>'abc'\<close>, zero for the
  text \<^verbatim>\<open>'0'\<close>, possibly an infinity. An absent \<^verbatim>\<open>account_id\<close> or
  \<^verbatim>\<open>type\<close> is the empty string.
\<close>

record txn_request =
  req_account_id :: string
  req_type :: string
  req_amount :: "number option"
  req_description :: string

text \<open>
  One constructor for each 400 response of the handler.
\<close>

datatype txn_error =
    MissingFields
  | InvalidType
  | InvalidAmount
  | AccountNotFound
  | InsufficientFunds

text \<open>
  \<^verbatim>\<open>accounts.find(a => a.id === account_id)\<close>: the first account with that id.
\<close>

definition find_account :: "server \<Rightarrow> string \<Rightarrow> account option" where
  "find_account s i = find (\<lambda>a. acc_id a = i) (accounts s)"

text \<open>
  \<^verbatim>\<open>account.balance = newBalance\<close> writes through the reference that \<^verbatim>\<open>find\<close>
  returned: the first account with that id is the one that changes.
\<close>

fun set_balance :: "string \<Rightarrow> number \<Rightarrow> account list \<Rightarrow> account list" where
  "set_balance i b [] = []"
| "set_balance i b (a # as) =
     (if acc_id a = i then a\<lparr>balance := b\<rparr> # as else a # set_balance i b as)"

text \<open>
  The handler, in the order of its statements: the three fields are required, the type
  is one of three, \<^verbatim>\<open>transactionAmount <= 0\<close> is refused (the comparison is false
  for NaN), the account exists; then the new balance, the appended entry and the write.
\<close>

definition newBalance :: "account \<Rightarrow> string \<Rightarrow> number \<Rightarrow> txn_error + number" where
  "newBalance account ty transactionAmount =
     (if ty = ''deposit'' then Inr (js_add (balance account) transactionAmount)
      else if ty = ''withdrawal'' then
        (if js_less (balance account) transactionAmount then Inl InsufficientFunds
         else Inr (js_sub (balance account) transactionAmount))
      else Inr (balance account))"

definition applyTransaction :: "server \<Rightarrow> txn_request \<Rightarrow> txn_error + (server \<times> transaction)" where
  "applyTransaction s r =
     (case req_amount r of
        None \<Rightarrow> Inl MissingFields
      | Some transactionAmount \<Rightarrow>
          if req_account_id r = [] \<or> req_type r = [] then Inl MissingFields
          else if req_type r \<notin> set [''deposit'', ''withdrawal'', ''transfer''] then Inl InvalidType
          else if js_le transactionAmount (Finite 0) then Inl InvalidAmount
          else
            (case find_account s (req_account_id r) of
               None \<Rightarrow> Inl AccountNotFound
             | Some account \<Rightarrow>
                 (case newBalance account (req_type r) transactionAmount of
                    Inl e \<Rightarrow> Inl e
                  | Inr nb \<Rightarrow>
                      (let newTransaction =
                             \<lparr>txn_id = transactionIdCounter s,
                              txn_account_id = req_account_id r,
                              txn_type = req_type r,
                              amount = transactionAmount,
                              description = req_description r,
                              balance_before = balance account,
                              balance_after = nb,
                              txn_status = ''completed''\<rparr>
                       in Inr (s\<lparr>transactions := transactions s @ [newTransaction],
                                  accounts := set_balance (req_account_id r) nb (accounts s),
                                  transactionIdCounter := Suc (transactionIdCounter s)\<rparr>,
                               newTransaction)))))"








section \<open>Fixed deposits: the FixedDeposit model\<close>

datatype fd_status = FD_ACTIVE | FD_MATURED | FD_PREMATURE_CLOSED | FD_RENEWED | FD_PENDING

record fixed_deposit =
  fd_id :: nat
  principal_amount :: number
  interest_rate :: number
  tenure_months :: number
  maturity_amount :: number
  fd_status :: fd_status

text \<open>
  \<^verbatim>\<open>calculateMaturityAmount\<close> reads three fields of the object; a field that is
  falsy makes the method return 0. Every operation is the one of the source, in its
  order, on doubles.
\<close>

definition calculateMaturityAmount :: "number \<Rightarrow> number \<Rightarrow> number \<Rightarrow> number" where
  "calculateMaturityAmount principal_amount' interest_rate' tenure_months' =
     (if falsy principal_amount' \<or> falsy interest_rate' \<or> falsy tenure_months' then Finite 0
      else
        (let principal = principal_amount';
             rate = js_div interest_rate' (Finite 100);
             time = js_div tenure_months' (Finite 12);
             compoundingFrequency = Finite 4;
             maturityAmount =
               js_mul principal
                 (Math_pow (js_add (Finite 1) (js_div rate compoundingFrequency))
                    (js_mul compoundingFrequency time))
         in js_div (Math_round (js_mul maturityAmount (Finite 100))) (Finite 100)))"

text \<open>
  The constructor: \<^verbatim>\<open>data.maturity_amount || this.calculateMaturityAmount()\<close> and
  \<^verbatim>\<open>data.status || FD_STATUS.PENDING\<close>. An absent field is \<open>None\<close>.
\<close>

record fd_data =
  data_fd_id :: nat
  data_principal_amount :: number
  data_interest_rate :: number
  data_tenure_months :: number
  data_maturity_amount :: "number option"
  data_fd_status :: "fd_status option"

definition new_FixedDeposit :: "fd_data \<Rightarrow> fixed_deposit" where
  "new_FixedDeposit data =
     \<lparr>fd_id = data_fd_id data,
      principal_amount = data_principal_amount data,
      interest_rate = data_interest_rate data,
      tenure_months = data_tenure_months data,
      maturity_amount =
        (case data_maturity_amount data of
           None \<Rightarrow> calculateMaturityAmount (data_principal_amount data)
                     (data_interest_rate data) (data_tenure_months data)
         | Some m \<Rightarrow>
             if falsy m then calculateMaturityAmount (data_principal_amount data)
                             (data_interest_rate data) (data_tenure_months data)
             else m),
      fd_status = (case data_fd_status data of None \<Rightarrow> FD_PENDING | Some st \<Rightarrow> st)\<rparr>"

datatype fd_error = OnlyActiveCanBeClosed | FailedToClosePrematurely

text \<open>
  \<^verbatim>\<open>prematureClose(penaltyRate = 1)\<close>. \<open>monthsCompleted\<close> is the value of
  \<^verbatim>\<open>moment().diff(moment(this.start_date), 'months')\<close>, the whole months between the
  start date and the clock, which the model takes as an argument. \<open>db_error\<close> says
  whether the update of the table returned an error. The table is the list of its rows;
  the update writes every row whose id is the object's. \<open>prematureAmount\<close> is the
  constant of that name in the method.
\<close>

definition prematureAmount :: "fixed_deposit \<Rightarrow> int \<Rightarrow> number \<Rightarrow> number" where
  "prematureAmount this monthsCompleted penaltyRate =
     (let reducedRate = Math_max (Finite 0) (js_sub (interest_rate this) penaltyRate)
      in js_mul (principal_amount this)
           (Math_pow (js_add (Finite 1) (js_div (js_div reducedRate (Finite 100)) (Finite 4)))
              (js_mul (Finite 4) (js_div (Finite (of_int monthsCompleted)) (Finite 12)))))"

definition prematureClose ::
  "bool \<Rightarrow> int \<Rightarrow> number \<Rightarrow> fixed_deposit list \<Rightarrow> fixed_deposit
     \<Rightarrow> (fd_error + fixed_deposit) \<times> fixed_deposit list" where
  "prematureClose db_error monthsCompleted penaltyRate fixed_deposits this =
     (if fd_status this \<noteq> FD_ACTIVE then (Inl OnlyActiveCanBeClosed, fixed_deposits)
      else
        (let payout =
               js_div (Math_round (js_mul (prematureAmount this monthsCompleted penaltyRate)
                                      (Finite 100)))
                 (Finite 100)
         in if db_error then (Inl FailedToClosePrematurely, fixed_deposits)
            else
              (Inr (this\<lparr>fd_status := FD_PREMATURE_CLOSED, maturity_amount := payout\<rparr>),
               map (\<lambda>row. if fd_id row = fd_id this
                            then row\<lparr>fd_status := FD_PREMATURE_CLOSED, maturity_amount := payout\<rparr>
                            else row)
                   fixed_deposits)))"

text \<open>
  The last steps of both formulas: times the principal, times 100, rounded, divided by 100.
\<close>

definition in_cents :: "number \<Rightarrow> number \<Rightarrow> number" where
  "in_cents p w =
     js_div (Math_round (js_mul (js_mul p w) (Finite 100))) (Finite 100)"

text \<open>
  The maturity amount in the specification's words, on exact reals: principal times
  \<open>(1 + rate/400)\<close> to the power \<open>4 \<times> tenure_months / 12\<close>, rounded to two decimals
  (a tie going up).
\<close>

definition round2 :: "real \<Rightarrow> real" where
  "round2 x = of_int \<lfloor>x * 100 + 1 / 2\<rfloor> / 100"

definition exact_maturity_amount :: "real \<Rightarrow> real \<Rightarrow> real \<Rightarrow> real" where
  "exact_maturity_amount p rate tenure = p * (1 + rate / 400) powr (4 * tenure / 12)"

definition spec_maturity_amount :: "real \<Rightarrow> real \<Rightarrow> real \<Rightarrow> real" where
  "spec_maturity_amount p rate tenure = round2 (exact_maturity_amount p rate tenure)"

section \<open>The database behind the Share and Dividend models\<close>

text \<open>
  The models read and write tables of a remote database. A table is the list of its rows,
  in insertion order. Identifiers are UUIDs in the program and opaque numbers here, so the
  format checks of the validation schemas hold for every identifier; texts
  (descriptions, numbers of certificates) and timestamps of rows are left out, except
  the creation time of a share, which the dividend distribution compares with the
  record date. Every call of the database may return an error: an operation takes
  \<open>db_error\<close>, which says for the \<open>k\<close>-th call that the operation makes whether
  that call fails.
\<close>

type_synonym uuid = nat

datatype share_status = SHARE_ACTIVE | SHARE_TRANSFERRED | SHARE_REDEEMED | SHARE_SUSPENDED | SHARE_PENDING

datatype share_transaction_type = PURCHASE | TRANSFER | REDEMPTION | DIVIDEND | BONUS_ISSUE

datatype dividend_type = ANNUAL | INTERIM | BONUS | SPECIAL

datatype dividend_status = DECLARED | APPROVED | PAID | CANCELLED | PENDING

record member =
  member_id :: uuid
  member_status :: string

record bank =
  bank_id :: uuid
  bank_status :: string

record share =
  share_id :: uuid
  share_member_id :: uuid
  number_of_shares :: int
  share_value :: real
  share_status :: share_status
  share_created_at :: int

record share_transaction =
  st_member_id :: uuid
  transaction_type :: share_transaction_type
  st_number_of_shares :: int
  st_amount :: real

record dividend =
  dividend_id :: uuid
  dividend_year :: int
  dividend_type :: dividend_type
  dividend_rate :: real
  total_dividend_amount :: "real option"
  dividend_bank_id :: uuid
  dividend_status :: dividend_status
  record_date :: int
  payment_date :: int

record dividend_distribution =
  dd_dividend_id :: uuid
  dd_member_id :: uuid
  dd_number_of_shares :: int
  dividend_amount :: real
  payment_status :: string

record database =
  members :: "member list"
  banks :: "bank list"
  shares :: "share list"
  share_transactions :: "share_transaction list"
  dividends :: "dividend list"
  dividend_distributions :: "dividend_distribution list"

text \<open>
  \<^verbatim>\<open>.single()\<close> gives the row when the query has exactly one, and an error with no
  data otherwise; \<^verbatim>\<open>.maybeSingle()\<close> gives no data and no error for no row, the
  row for one, and an error with no data for several. The callers below look at the
  data of \<^verbatim>\<open>maybeSingle\<close> only, and at error or missing data alike for
  \<^verbatim>\<open>single\<close>, so both are the same function to an optional row.
\<close>

definition single :: "bool \<Rightarrow> 'a list \<Rightarrow> 'a option" where
  "single err rows = (if err then None else (case rows of [r] \<Rightarrow> Some r | _ \<Rightarrow> None))"

definition maybeSingle :: "bool \<Rightarrow> 'a list \<Rightarrow> 'a option" where
  "maybeSingle err rows = (if err then None else (case rows of [r] \<Rightarrow> Some r | _ \<Rightarrow> None))"

section \<open>Share registry: Share.transfer and its route\<close>

record transfer_data =
  from_member_id :: uuid
  to_member_id :: uuid
  td_number_of_shares :: int
  transfer_price :: real
  transfer_reason :: string

datatype share_error =
    RequestValidationFailed
  | TransferValidationError
  | MembersNotFound
  | MembersNotActive
  | ErrorCheckingShares
  | InsufficientShares
  | FailedToCreateTransaction

text \<open>The schema of the model (Share.js) and the schema of the route (shareValidator.js).\<close>

definition shareTransferSchema :: "transfer_data \<Rightarrow> bool" where
  "shareTransferSchema d =
     (1 \<le> td_number_of_shares d \<and> 0 \<le> transfer_price d
      \<and> transfer_reason d \<noteq> [] \<and> length (transfer_reason d) \<le> 500)"

definition route_shareTransferSchema :: "transfer_data \<Rightarrow> bool" where
  "route_shareTransferSchema d =
     (1 \<le> td_number_of_shares d \<and> td_number_of_shares d \<le> 10000
      \<and> 0 \<le> transfer_price d \<and> transfer_price d \<le> 10000000
      \<and> 10 \<le> length (transfer_reason d) \<and> length (transfer_reason d) \<le> 500
      \<and> \<not> (from_member_id d = to_member_id d))"

definition createTransaction ::
  "bool \<Rightarrow> database \<Rightarrow> share_transaction \<Rightarrow> (share_error + share_transaction) \<times> database" where
  "createTransaction err db transactionData =
     (if err then (Inl FailedToCreateTransaction, db)
      else (Inr transactionData,
            db\<lparr>share_transactions := share_transactions db @ [transactionData]\<rparr>))"

text \<open>
  \<^verbatim>\<open>Share.transfer\<close>. Its database calls, in order: 0 and 1 the two member lookups,
  2 the query of the active shares of the source, 3 and 4 the two inserts.
\<close>

definition totalShares :: "share list \<Rightarrow> int" where
  "totalShares fromMemberShares = foldl (\<lambda>sum sh. sum + number_of_shares sh) 0 fromMemberShares"

definition transfer ::
  "(nat \<Rightarrow> bool) \<Rightarrow> database \<Rightarrow> transfer_data \<Rightarrow> (share_error + bool) \<times> database" where
  "transfer db_error db d =
     (if \<not> shareTransferSchema d then (Inl TransferValidationError, db)
      else
        (case (single (db_error 0) (filter (\<lambda>m. member_id m = from_member_id d) (members db)),
               single (db_error 1) (filter (\<lambda>m. member_id m = to_member_id d) (members db))) of
           (Some fromMember, Some toMember) \<Rightarrow>
             if member_status fromMember \<noteq> ''active'' \<or> member_status toMember \<noteq> ''active''
             then (Inl MembersNotActive, db)
             else if db_error 2 then (Inl ErrorCheckingShares, db)
             else
               (let fromMemberShares =
                      filter (\<lambda>sh. share_member_id sh = from_member_id d
                                     \<and> share_status sh = SHARE_ACTIVE) (shares db)
                in if totalShares fromMemberShares < td_number_of_shares d
                   then (Inl InsufficientShares, db)
                   else
                     (case createTransaction (db_error 3) db
                             \<lparr>st_member_id = from_member_id d, transaction_type = TRANSFER,
                              st_number_of_shares = - td_number_of_shares d,
                              st_amount = - transfer_price d\<rparr> of
                        (Inl e, db1) \<Rightarrow> (Inl e, db1)
                      | (Inr _, db1) \<Rightarrow>
                          (case createTransaction (db_error 4) db1
                                  \<lparr>st_member_id = to_member_id d, transaction_type = TRANSFER,
                                   st_number_of_shares = td_number_of_shares d,
                                   st_amount = transfer_price d\<rparr> of
                             (Inl e, db2) \<Rightarrow> (Inl e, db2)
                           | (Inr _, db2) \<Rightarrow> (Inr True, db2))))
         | _ \<Rightarrow> (Inl MembersNotFound, db)))"

text \<open>
  The request \<^verbatim>\<open>POST /shares/transfer\<close>: the validation middleware with the schema
  of the route, then the controller, which calls \<^verbatim>\<open>Share.transfer\<close> and answers 400
  with the message of whatever it throws.
\<close>

definition transferShares ::
  "(nat \<Rightarrow> bool) \<Rightarrow> database \<Rightarrow> transfer_data \<Rightarrow> (share_error + bool) \<times> database" where
  "transferShares db_error db d =
     (if \<not> route_shareTransferSchema d then (Inl RequestValidationFailed, db)
      else transfer db_error db d)"

text \<open>
  The member that a lookup by id returns when the call succeeds, and the sum of the
  active holdings of a member, which the sufficiency check of the transfer reads.
\<close>

definition member_found :: "database \<Rightarrow> uuid \<Rightarrow> member option" where
  "member_found db i = single False (filter (\<lambda>m. member_id m = i) (members db))"

definition active_holdings :: "database \<Rightarrow> uuid \<Rightarrow> int" where
  "active_holdings db i =
     sum_list (map number_of_shares
       (filter (\<lambda>sh. share_member_id sh = i \<and> share_status sh = SHARE_ACTIVE) (shares db)))"

text \<open>The same transfer requested \<open>n\<close> times in a row, with the answers in order.\<close>

fun transfer_times ::
  "nat \<Rightarrow> (nat \<Rightarrow> bool) \<Rightarrow> database \<Rightarrow> transfer_data \<Rightarrow> (share_error + bool) list \<times> database" where
  "transfer_times 0 db_error db d = ([], db)"
| "transfer_times (Suc n) db_error db d =
     (case transfer db_error db d of
        (res, db1) \<Rightarrow> (case transfer_times n db_error db1 d of (rs, db2) \<Rightarrow> (res # rs, db2)))"

text \<open>The signed sum of the share movements of the ledger of share transactions.\<close>

definition shares_moved :: "database \<Rightarrow> int" where
  "shares_moved db = sum_list (map st_number_of_shares (share_transactions db))"

definition no_db_error :: "nat \<Rightarrow> bool" where
  "no_db_error k = False"

section \<open>Dividends: the Dividend model\<close>

text \<open>
  What \<^verbatim>\<open>Dividend.create\<close> is given. \<^verbatim>\<open>total_dividend_amount\<close> and
  \<^verbatim>\<open>status\<close> may be absent. The identifier comes from \<^verbatim>\<open>uuidv4()\<close>, which
  the model takes as the argument \<open>new_id\<close>.
\<close>

record dividend_data =
  data_dividend_year :: int
  data_dividend_type :: dividend_type
  data_dividend_rate :: real
  data_total_dividend_amount :: "real option"
  data_bank_id :: uuid
  data_status :: "dividend_status option"
  data_record_date :: int
  data_payment_date :: int

datatype dividend_error =
    DividendValidationError
  | BankNotFound
  | BankNotActive
  | DividendAlreadyDeclared
  | FailedToCreateDividend
  | OnlyDeclaredCanBeApproved
  | FailedToApprove
  | OnlyApprovedCanBeDistributed
  | FailedToFetchEligibleMembers
  | TypeError
  | FailedToCreateDistributions
  | UpdateValidationError
  | FailedToUpdateDividend
  | CannotCancelPaid
  | FailedToCancel

definition new_Dividend :: "uuid \<Rightarrow> dividend_data \<Rightarrow> dividend" where
  "new_Dividend new_id data =
     \<lparr>dividend_id = new_id,
      dividend_year = data_dividend_year data,
      dividend_type = data_dividend_type data,
      dividend_rate = data_dividend_rate data,
      total_dividend_amount = data_total_dividend_amount data,
      dividend_bank_id = data_bank_id data,
      dividend_status = (case data_status data of None \<Rightarrow> PENDING | Some st \<Rightarrow> st),
      record_date = data_record_date data,
      payment_date = data_payment_date data\<rparr>"

text \<open>
  \<^verbatim>\<open>dividendValidationSchema\<close> of Dividend.js, on the fields of the model: the year
  from 2000 to 2100, the rate from 0 to 100, the total amount present and not negative.
\<close>

definition dividendValidationSchema :: "dividend \<Rightarrow> bool" where
  "dividendValidationSchema d =
     (2000 \<le> dividend_year d \<and> dividend_year d \<le> 2100
      \<and> 0 \<le> dividend_rate d \<and> dividend_rate d \<le> 100
      \<and> (case total_dividend_amount d of None \<Rightarrow> False | Some t \<Rightarrow> 0 \<le> t))"

text \<open>
  The rows that the duplicate check of \<^verbatim>\<open>Dividend.create\<close> selects: equal year,
  type and bank. The query has no condition on the status.
\<close>

definition same_declaration :: "dividend \<Rightarrow> dividend \<Rightarrow> bool" where
  "same_declaration d row =
     (dividend_year row = dividend_year d \<and> dividend_type row = dividend_type d
      \<and> dividend_bank_id row = dividend_bank_id d)"

text \<open>
  \<^verbatim>\<open>Dividend.create\<close>. Database calls: 0 the lookup of the bank, 1 the duplicate
  check (its error is ignored by the program), 2 the insert.
\<close>

definition create ::
  "(nat \<Rightarrow> bool) \<Rightarrow> uuid \<Rightarrow> database \<Rightarrow> dividend_data \<Rightarrow> (dividend_error + dividend) \<times> database" where
  "create db_error new_id db dividendData =
     (let validatedData = new_Dividend new_id dividendData
      in if \<not> dividendValidationSchema validatedData then (Inl DividendValidationError, db)
         else
           (case single (db_error 0)
                   (filter (\<lambda>b. bank_id b = dividend_bank_id validatedData) (banks db)) of
              None \<Rightarrow> (Inl BankNotFound, db)
            | Some bank \<Rightarrow>
                if bank_status bank \<noteq> ''active'' then (Inl BankNotActive, db)
                else
                  (case maybeSingle (db_error 1)
                          (filter (same_declaration validatedData) (dividends db)) of
                     Some existingDividend \<Rightarrow> (Inl DividendAlreadyDeclared, db)
                   | None \<Rightarrow>
                       if db_error 2 then (Inl FailedToCreateDividend, db)
                       else (Inr validatedData,
                             db\<lparr>dividends := dividends db @ [validatedData]\<rparr>))))"

text \<open>
  \<^verbatim>\<open>approve\<close> and \<^verbatim>\<open>cancel\<close>: a check of the status of the object, one update
  of the rows with the object's id, then the status of the object.
\<close>

definition set_status :: "uuid \<Rightarrow> dividend_status \<Rightarrow> dividend list \<Rightarrow> dividend list" where
  "set_status i st rows =
     map (\<lambda>row. if dividend_id row = i then row\<lparr>dividend_status := st\<rparr> else row) rows"

definition approve ::
  "(nat \<Rightarrow> bool) \<Rightarrow> database \<Rightarrow> dividend \<Rightarrow> (dividend_error + dividend) \<times> database" where
  "approve db_error db this =
     (if dividend_status this \<noteq> DECLARED then (Inl OnlyDeclaredCanBeApproved, db)
      else if db_error 0 then (Inl FailedToApprove, db)
      else (Inr (this\<lparr>dividend_status := APPROVED\<rparr>),
            db\<lparr>dividends := set_status (dividend_id this) APPROVED (dividends db)\<rparr>))"

definition cancel ::
  "(nat \<Rightarrow> bool) \<Rightarrow> database \<Rightarrow> dividend \<Rightarrow> (dividend_error + dividend) \<times> database" where
  "cancel db_error db this =
     (if dividend_status this = PAID then (Inl CannotCancelPaid, db)
      else if db_error 0 then (Inl FailedToCancel, db)
      else (Inr (this\<lparr>dividend_status := CANCELLED\<rparr>),
            db\<lparr>dividends := set_status (dividend_id this) CANCELLED (dividends db)\<rparr>))"

text \<open>
  \<^verbatim>\<open>update\<close>, as \<^verbatim>\<open>distribute\<close> calls it, with a status and a total amount:
  \<^verbatim>\<open>dividendUpdateSchema\<close> refuses a negative total; the update selects the written
  row with \<^verbatim>\<open>.single()\<close>, so it fails unless exactly one row has the object's id;
  \<^verbatim>\<open>Object.assign(this, data)\<close> makes the object equal to the row read back.
\<close>

definition update ::
  "bool \<Rightarrow> database \<Rightarrow> dividend \<Rightarrow> dividend_status \<Rightarrow> real
     \<Rightarrow> (dividend_error + dividend) \<times> database" where
  "update err db this st total_dividend =
     (if total_dividend < 0 then (Inl UpdateValidationError, db)
      else
        (case single err (filter (\<lambda>row. dividend_id row = dividend_id this) (dividends db)) of
           None \<Rightarrow> (Inl FailedToUpdateDividend, db)
         | Some row \<Rightarrow>
             (let data = row\<lparr>dividend_status := st, total_dividend_amount := Some total_dividend\<rparr>
              in (Inr data,
                  db\<lparr>dividends :=
                        map (\<lambda>r. if dividend_id r = dividend_id this then data else r)
                          (dividends db)\<rparr>))))"

text \<open>
  The loop of \<^verbatim>\<open>distribute\<close> over the selected shares, each with the member that
  the query embeds (absent when no member has the share's member id, and then reading
  its status throws).
\<close>

fun distributions_loop ::
  "dividend \<Rightarrow> (share \<times> member option) list \<Rightarrow> dividend_distribution list \<Rightarrow> real
     \<Rightarrow> dividend_error + (dividend_distribution list \<times> real)" where
  "distributions_loop this [] dividendDistributions totalDistributed =
     Inr (dividendDistributions, totalDistributed)"
| "distributions_loop this ((sh, None) # rest) dividendDistributions totalDistributed =
     Inl TypeError"
| "distributions_loop this ((sh, Some m) # rest) dividendDistributions totalDistributed =
     (if member_status m = ''active'' then
        (let memberDividend =
               (of_int (number_of_shares sh) * share_value sh * dividend_rate this) / 100
         in distributions_loop this rest
              (dividendDistributions @
                 [\<lparr>dd_dividend_id = dividend_id this,
                   dd_member_id = share_member_id sh,
                   dd_number_of_shares = number_of_shares sh,
                   dividend_amount = memberDividend,
                   payment_status = ''pending''\<rparr>])
              (totalDistributed + memberDividend))
      else distributions_loop this rest dividendDistributions totalDistributed)"

definition eligibleMembers :: "database \<Rightarrow> dividend \<Rightarrow> (share \<times> member option) list" where
  "eligibleMembers db this =
     map (\<lambda>sh. (sh, find (\<lambda>m. member_id m = share_member_id sh) (members db)))
       (filter (\<lambda>sh. share_status sh = SHARE_ACTIVE \<and> share_created_at sh \<le> record_date this)
          (shares db))"

record distribution_result =
  total_members :: nat
  total_amount :: real
  distributions :: "dividend_distribution list"

text \<open>
  \<^verbatim>\<open>distribute\<close>. Database calls: 0 the query of the eligible shares, 1 the insert
  of the distributions, 2 the update of the dividend. The result is the answer, the
  database and the object afterwards.
\<close>

definition distribute ::
  "(nat \<Rightarrow> bool) \<Rightarrow> database \<Rightarrow> dividend
     \<Rightarrow> (dividend_error + distribution_result) \<times> database \<times> dividend" where
  "distribute db_error db this =
     (if dividend_status this \<noteq> APPROVED then (Inl OnlyApprovedCanBeDistributed, db, this)
      else if db_error 0 then (Inl FailedToFetchEligibleMembers, db, this)
      else
        (case distributions_loop this (eligibleMembers db this) [] 0 of
           Inl e \<Rightarrow> (Inl e, db, this)
         | Inr (dividendDistributions, totalDistributed) \<Rightarrow>
             if db_error 1 then (Inl FailedToCreateDistributions, db, this)
             else
               (let db1 = db\<lparr>dividend_distributions :=
                               dividend_distributions db @ dividendDistributions\<rparr>
                in case update (db_error 2) db1 this PAID totalDistributed of
                     (Inl e, db2) \<Rightarrow> (Inl e, db2, this)
                   | (Inr data, db2) \<Rightarrow>
                       (Inr \<lparr>total_members = length dividendDistributions,
                             total_amount = totalDistributed,
                             distributions = dividendDistributions\<rparr>,
                        db2, data))))"

text \<open>
  \<^verbatim>\<open>Dividend.findById\<close>: the row with that id, selected with \<^verbatim>\<open>.single()\<close>, as
  a new object.
\<close>

definition findById :: "bool \<Rightarrow> database \<Rightarrow> uuid \<Rightarrow> dividend option" where
  "findById err db dividendId = single err (filter (\<lambda>row. dividend_id row = dividendId) (dividends db))"

text \<open>At most one dividend for each year, type and bank.\<close>

definition unique_declarations :: "database \<Rightarrow> bool" where
  "unique_declarations db =
     (\<forall>d. length (filter (same_declaration d) (dividends db)) \<le> 1)"

section \<open>Concrete data for the examples\<close>

text \<open>
  Two accounts as the account-creation handler makes them, with initial deposits 1000
  and 0 (the default); a deposit of 100000 at 8% for 12 months built by the constructor.
\<close>

definition account_1 :: account where
  "account_1 = \<lparr>acc_id = ''account_1'', acc_customer_id = ''customer_1'',
                 account_type = ''savings'', balance = Finite 1000, acc_status = ''active''\<rparr>"

definition account_2 :: account where
  "account_2 = \<lparr>acc_id = ''account_2'', acc_customer_id = ''customer_2'',
                 account_type = ''savings'', balance = Finite 0, acc_status = ''active''\<rparr>"

definition ledger0 :: server where
  "ledger0 = \<lparr>accounts = [account_1, account_2], transactions = [], transactionIdCounter = 1\<rparr>"

definition request :: "string \<Rightarrow> string \<Rightarrow> number \<Rightarrow> txn_request" where
  "request a ty amt = \<lparr>req_account_id = a, req_type = ty, req_amount = Some amt,
                        req_description = []\<rparr>"

definition entry :: "nat \<Rightarrow> string \<Rightarrow> string \<Rightarrow> number \<Rightarrow> number \<Rightarrow> number \<Rightarrow> transaction" where
  "entry n a ty amt before after =
     \<lparr>txn_id = n, txn_account_id = a, txn_type = ty, amount = amt,
      description = [], balance_before = before, balance_after = after,
      txn_status = ''completed''\<rparr>"




definition fd_example :: fixed_deposit where
  "fd_example =
     new_FixedDeposit
       \<lparr>data_fd_id = 31, data_principal_amount = Finite 100000, data_interest_rate = Finite 8,
        data_tenure_months = Finite 12, data_maturity_amount = None,
        data_fd_status = Some FD_ACTIVE\<rparr>"

definition closed_example :: "number \<Rightarrow> fixed_deposit" where
  "closed_example payout =
     fd_example\<lparr>fd_status := FD_PREMATURE_CLOSED, maturity_amount := payout\<rparr>"

definition db0 :: database where
  "db0 =
     \<lparr>members = [\<lparr>member_id = 11, member_status = ''active''\<rparr>,
                 \<lparr>member_id = 12, member_status = ''active''\<rparr>,
                 \<lparr>member_id = 13, member_status = ''suspended''\<rparr>],
      banks = [\<lparr>bank_id = 10, bank_status = ''active''\<rparr>],
      shares = [\<lparr>share_id = 20, share_member_id = 11, number_of_shares = 100,
                 share_value = 10, share_status = SHARE_ACTIVE, share_created_at = 5\<rparr>],
      share_transactions = [],
      dividends = [],
      dividend_distributions = []\<rparr>"

definition transfer_request :: "uuid \<Rightarrow> uuid \<Rightarrow> int \<Rightarrow> transfer_data" where
  "transfer_request a b n =
     \<lparr>from_member_id = a, to_member_id = b, td_number_of_shares = n, transfer_price = 1000,
      transfer_reason = ''sale of shares''\<rparr>"

definition transfer_rows :: "transfer_data \<Rightarrow> share_transaction list" where
  "transfer_rows d =
     [\<lparr>st_member_id = from_member_id d, transaction_type = TRANSFER,
       st_number_of_shares = - td_number_of_shares d, st_amount = - transfer_price d\<rparr>,
      \<lparr>st_member_id = to_member_id d, transaction_type = TRANSFER,
       st_number_of_shares = td_number_of_shares d, st_amount = transfer_price d\<rparr>]"

definition annual_2024 :: dividend_data where
  "annual_2024 =
     \<lparr>data_dividend_year = 2024, data_dividend_type = ANNUAL, data_dividend_rate = 5,
      data_total_dividend_amount = Some 0, data_bank_id = 10, data_status = None,
      data_record_date = 10, data_payment_date = 20\<rparr>"

definition dividend_2024 :: "dividend_status \<Rightarrow> dividend" where
  "dividend_2024 st =
     \<lparr>dividend_id = 30, dividend_year = 2024, dividend_type = ANNUAL, dividend_rate = 5,
      total_dividend_amount = Some 0, dividend_bank_id = 10, dividend_status = st,
      record_date = 10, payment_date = 20\<rparr>"

definition paid_2024 :: dividend where
  "paid_2024 = (dividend_2024 PAID)\<lparr>total_dividend_amount := Some 50\<rparr>"

definition distributions_2024 :: "dividend_distribution list" where
  "distributions_2024 =
     [\<lparr>dd_dividend_id = 30, dd_member_id = 11, dd_number_of_shares = 100,
       dividend_amount = 50, payment_status = ''pending''\<rparr>]"

section \<open>Rounding to the nearest double: theorems\<close>

lemma rne_of_int [simp]: "rne (of_int k) = k"
  by (simp add: rne_def)

lemma rne_cases: "rne r = \<lfloor>r\<rfloor> \<or> rne r = \<lfloor>r\<rfloor> + 1"
  by (simp add: rne_def Let_def)

lemma rne_lower: "r - 1 / 2 \<le> of_int (rne r)"
  unfolding rne_def Let_def by (auto split: if_splits) linarith+

lemma rne_upper: "of_int (rne r) \<le> r + 1 / 2"
  unfolding rne_def Let_def by (auto split: if_splits) linarith+

lemma rne_eqI: "of_int k - 1 / 2 < r \<Longrightarrow> r < of_int k + 1 / 2 \<Longrightarrow> rne r = k"
  using rne_lower[of r] rne_upper[of r] by linarith

lemma rne_mono: "r \<le> s \<Longrightarrow> rne r \<le> rne s"
proof -
  assume rs: "r \<le> s"
  then have fl: "\<lfloor>r\<rfloor> \<le> \<lfloor>s\<rfloor>" by (rule floor_mono)
  show ?thesis
  proof (cases "\<lfloor>r\<rfloor> = \<lfloor>s\<rfloor>")
    case True
    with rs show ?thesis
      by (auto simp: rne_def Let_def)
  next
    case False
    with fl have "\<lfloor>r\<rfloor> + 1 \<le> \<lfloor>s\<rfloor>" by simp
    moreover have "rne r \<le> \<lfloor>r\<rfloor> + 1" using rne_cases[of r] by auto
    moreover have "\<lfloor>s\<rfloor> \<le> rne s" using rne_cases[of s] by auto
    ultimately show ?thesis by linarith
  qed
qed

lemma rne_minus: "rne (- r) = - rne r"
proof (cases "r \<in> \<int>")
  case True
  then obtain k where "r = of_int k" by (auto elim: Ints_cases)
  then show ?thesis by (simp flip: of_int_minus)
next
  case False
  then have ne: "r \<noteq> of_int \<lfloor>r\<rfloor>"
    by (metis Ints_of_int)
  then have fm: "\<lfloor>- r\<rfloor> = - \<lfloor>r\<rfloor> - 1"
    by (simp add: floor_minus ceiling_altdef)
  have d: "0 < r - of_int \<lfloor>r\<rfloor>"
    using ne of_int_floor_le[of r] by linarith
  show ?thesis
    using d unfolding rne_def Let_def fm
    by (auto split: if_splits)
qed

lemma binade_upper: "x \<noteq> 0 \<Longrightarrow> \<bar>x\<bar> < 2 powr of_int (binade x + 1)"
proof -
  assume "x \<noteq> 0"
  then have "0 < \<bar>x\<bar>" by simp
  have "log 2 \<bar>x\<bar> < of_int (binade x + 1)"
    unfolding binade_def by linarith
  then show ?thesis
    using \<open>0 < \<bar>x\<bar>\<close> by (simp add: log_less_iff del: of_int_add)
qed

lemma binade_lower: "x \<noteq> 0 \<Longrightarrow> 2 powr of_int (binade x) \<le> \<bar>x\<bar>"
proof -
  assume "x \<noteq> 0"
  then have "0 < \<bar>x\<bar>" by simp
  have "of_int (binade x) \<le> log 2 \<bar>x\<bar>"
    unfolding binade_def by linarith
  then show ?thesis
    using \<open>0 < \<bar>x\<bar>\<close> by (simp add: le_log_iff)
qed

lemma binade_eqI:
  assumes "2 powr of_int e \<le> \<bar>x\<bar>" and "\<bar>x\<bar> < 2 powr of_int (e + 1)"
  shows "binade x = e"
proof -
  have "0 < \<bar>x\<bar>" using assms(1) powr_gt_zero[of 2 "of_int e"] by linarith
  then have "of_int e \<le> log 2 \<bar>x\<bar>" "log 2 \<bar>x\<bar> < of_int (e + 1)"
    using assms by (simp_all add: le_log_iff log_less_iff del: of_int_add)
  then show ?thesis
    unfolding binade_def by linarith
qed

lemma binade_mono: "x \<noteq> 0 \<Longrightarrow> \<bar>x\<bar> \<le> \<bar>y\<bar> \<Longrightarrow> binade x \<le> binade y"
  unfolding binade_def by (intro floor_mono) (simp add: log_le_cancel_iff)

lemma binade_minus [simp]: "binade (- x) = binade x"
  by (simp add: binade_def)

lemma quantum_minus [simp]: "quantum (- x) = quantum x"
  by (simp add: quantum_def)

lemma quantum_pos [simp]: "0 < quantum x"
  by (simp add: quantum_def)

lemma two_powr_split: "(2::real) powr of_int (a + 1) = 2 ^ 53 * 2 powr of_int (a - 52)"
proof -
  have "2 powr of_int (a + 1) = (2::real) powr (53 + of_int (a - 52))"
    by (simp add: algebra_simps)
  also have "\<dots> = 2 powr 53 * 2 powr of_int (a - 52)" by (rule powr_add)
  finally show ?thesis by simp
qed

lemma two_powr_split52: "(2::real) powr of_int a = 2 ^ 52 * 2 powr of_int (a - 52)"
proof -
  have "2 powr of_int a = (2::real) powr (52 + of_int (a - 52))"
    by (simp add: algebra_simps)
  also have "\<dots> = 2 powr 52 * 2 powr of_int (a - 52)" by (rule powr_add)
  finally show ?thesis by simp
qed

text \<open>The scaled magnitude is below \<open>2^53\<close>, and at least \<open>2^52\<close> in the normal range.\<close>

lemma scaled_upper: "x \<noteq> 0 \<Longrightarrow> \<bar>x\<bar> / quantum x < 2 ^ 53"
proof -
  assume x: "x \<noteq> 0"
  let ?E = "max (binade x) (- 1022)"
  have "\<bar>x\<bar> < 2 powr of_int (binade x + 1)" using x by (rule binade_upper)
  also have "\<dots> \<le> 2 powr of_int (?E + 1)" by (intro powr_mono) auto
  also have "\<dots> = 2 ^ 53 * quantum x" by (simp only: two_powr_split quantum_def)
  finally show ?thesis by (simp add: pos_divide_less_eq)
qed

lemma scaled_lower: "x \<noteq> 0 \<Longrightarrow> - 1022 \<le> binade x \<Longrightarrow> 2 ^ 52 \<le> \<bar>x\<bar> / quantum x"
proof -
  assume x: "x \<noteq> 0" and n: "- 1022 \<le> binade x"
  then have E: "max (binade x) (- 1022) = binade x" by simp
  have "2 ^ 52 * quantum x = 2 powr of_int (binade x)"
    unfolding quantum_def E by (simp only: two_powr_split52[symmetric])
  also have "\<dots> \<le> \<bar>x\<bar>" using x by (rule binade_lower)
  finally show ?thesis by (simp add: pos_le_divide_eq)
qed

lemma nearest_minus: "nearest (- x) = - nearest x"
  by (simp add: nearest_def rne_minus)

lemma nearest_nonneg: "0 \<le> x \<Longrightarrow> 0 \<le> nearest x"
proof -
  assume "0 \<le> x"
  then have "0 \<le> x / quantum x" by (intro divide_nonneg_pos) simp_all
  then have "rne (of_int 0) \<le> rne (x / quantum x)" by (intro rne_mono) simp
  then have "0 \<le> rne (x / quantum x)" by (simp only: rne_of_int)
  then have "0 \<le> of_int (rne (x / quantum x)) * quantum x"
    by (intro mult_nonneg_nonneg) (simp_all add: less_imp_le)
  then show ?thesis
    by (simp add: nearest_def)
qed

lemma nearest_mono_pos:
  assumes "0 < x" and "x \<le> y"
  shows "nearest x \<le> nearest y"
proof -
  let ?Ex = "max (binade x) (- 1022)" and ?Ey = "max (binade y) (- 1022)"
  from assms have y: "0 < y" and x0: "x \<noteq> 0" and y0: "y \<noteq> 0" by auto
  have "binade x \<le> binade y" using assms by (intro binade_mono) auto
  then have le: "?Ex \<le> ?Ey" by simp
  show ?thesis
  proof (cases "?Ex = ?Ey")
    case True
    then have q: "quantum x = quantum y" by (simp add: quantum_def)
    have "x / quantum y \<le> y / quantum y"
      using assms by (intro divide_right_mono) (simp_all add: less_imp_le)
    then have "rne (x / quantum y) \<le> rne (y / quantum y)" by (rule rne_mono)
    then show ?thesis
      using x0 y0 by (simp add: nearest_def q)
  next
    case False
    with le have lt: "?Ex + 1 \<le> ?Ey" by simp
    then have ny: "- 1022 \<le> binade y" and Ey: "?Ey = binade y" by auto
    have "x / quantum x \<le> 2 ^ 53"
      using scaled_upper[OF x0] assms(1) by simp
    then have "rne (x / quantum x) \<le> rne (of_int (2 ^ 53))"
      by (intro rne_mono) simp
    then have "of_int (rne (x / quantum x)) \<le> (2 ^ 53 :: real)"
      by (simp only: rne_of_int) (metis of_int_le_iff of_int_numeral of_int_power)
    then have "nearest x \<le> 2 ^ 53 * quantum x"
      using x0 by (simp add: nearest_def)
    also have "\<dots> = 2 powr of_int (?Ex + 1)"
      by (simp only: two_powr_split quantum_def)
    also have "\<dots> \<le> 2 powr of_int ?Ey"
      using lt by (intro powr_mono) auto
    also have "\<dots> = 2 ^ 52 * quantum y"
      by (simp only: two_powr_split52[symmetric] quantum_def)
    also have "\<dots> \<le> nearest y"
    proof -
      have "2 ^ 52 \<le> y / quantum y"
        using scaled_lower[OF y0 ny] y by simp
      then have "rne (of_int (2 ^ 52)) \<le> rne (y / quantum y)"
        by (intro rne_mono) simp
      then have "(2 ^ 52 :: real) \<le> of_int (rne (y / quantum y))"
        by (simp only: rne_of_int) (metis of_int_le_iff of_int_numeral of_int_power)
      then show ?thesis
        using y0 by (simp add: nearest_def)
    qed
    finally show ?thesis .
  qed
qed

lemma nearest_mono: "x \<le> y \<Longrightarrow> nearest x \<le> nearest y"
proof -
  assume xy: "x \<le> y"
  consider "0 < x" | "x \<le> 0" "0 \<le> y" | "y < 0" by linarith
  then show ?thesis
  proof cases
    case 1
    from 1 xy show ?thesis by (rule nearest_mono_pos)
  next
    case 2
    from 2(1) have "0 \<le> nearest (- x)" by (intro nearest_nonneg) simp
    then have "nearest x \<le> 0" by (simp add: nearest_minus)
    also have "0 \<le> nearest y" using 2(2) by (rule nearest_nonneg)
    finally show ?thesis .
  next
    case 3
    then have "nearest (- y) \<le> nearest (- x)"
      using xy by (intro nearest_mono_pos) auto
    then show ?thesis by (simp add: nearest_minus)
  qed
qed

lemma two_powr_minus_nat: "(2::real) powr of_int (a - int n) = 2 powr of_int a / 2 ^ n"
proof -
  have "(2::real) powr of_int (a - int n) = 2 powr (of_int a - real n)" by simp
  also have "\<dots> = 2 powr of_int a / 2 powr real n" by (rule powr_diff)
  also have "2 powr real n = (2::real) ^ n" by (simp add: powr_realpow)
  finally show ?thesis .
qed

lemma two_powr_plus_nat: "(2::real) powr of_int (a + int n) = 2 powr of_int a * 2 ^ n"
proof -
  have "(2::real) powr of_int (a + int n) = 2 powr (of_int a + real n)" by simp
  also have "\<dots> = 2 powr of_int a * 2 powr real n" by (rule powr_add)
  also have "2 powr real n = (2::real) ^ n" by (simp add: powr_realpow)
  finally show ?thesis .
qed

lemma two_powr_nat: "(2::real) powr of_int (int n) = 2 ^ n"
  by (simp add: powr_realpow)

text \<open>Evaluation of \<open>nearest\<close> at a value whose binade is known.\<close>

lemma nearest_small:
  assumes "2 ^ 52 \<le> \<bar>x\<bar> * 2 ^ n" and "\<bar>x\<bar> * 2 ^ n < 2 ^ 53" and "n \<le> 1074"
  shows "nearest x = of_int (rne (x * 2 ^ n)) / 2 ^ n"
proof -
  have x: "x \<noteq> 0" using assms(1) by auto
  have "2 powr of_int (int 52 - int n) \<le> \<bar>x\<bar>"
    using assms(1) by (simp only: two_powr_minus_nat two_powr_nat) (simp add: field_simps)
  moreover have "\<bar>x\<bar> < 2 powr of_int (int 53 - int n)"
    using assms(2) by (simp only: two_powr_minus_nat two_powr_nat) (simp add: field_simps)
  ultimately have "binade x = int 52 - int n"
    by (intro binade_eqI) (simp_all add: algebra_simps)
  then have "max (binade x) (- 1022) - 52 = 0 - int n"
    using assms(3) by simp
  then have "quantum x = 1 / 2 ^ n"
    unfolding quantum_def by (simp only: two_powr_minus_nat) simp
  then show ?thesis
    using x by (simp add: nearest_def)
qed

lemma nearest_large:
  assumes "2 ^ 52 \<le> \<bar>x\<bar> / 2 ^ n" and "\<bar>x\<bar> / 2 ^ n < 2 ^ 53"
  shows "nearest x = of_int (rne (x / 2 ^ n)) * 2 ^ n"
proof -
  have x: "x \<noteq> 0" using assms(1) by auto
  have "2 powr of_int (int 52 + int n) \<le> \<bar>x\<bar>"
    using assms(1) by (simp only: two_powr_plus_nat two_powr_nat) (simp add: field_simps)
  moreover have "\<bar>x\<bar> < 2 powr of_int (int 53 + int n)"
    using assms(2) by (simp only: two_powr_plus_nat two_powr_nat) (simp add: field_simps)
  ultimately have "binade x = int 52 + int n"
    by (intro binade_eqI) (simp_all add: algebra_simps)
  then have "max (binade x) (- 1022) - 52 = 0 + int n"
    by simp
  then have "quantum x = 2 ^ n"
    unfolding quantum_def by (simp only: two_powr_plus_nat) simp
  then show ?thesis
    using x by (simp add: nearest_def)
qed

text \<open>Whole numbers of magnitude below \<open>2^53\<close> are doubles.\<close>

lemma nearest_of_int:
  assumes "\<bar>k\<bar> < 2 ^ 53"
  shows "nearest (of_int k) = of_int k"
proof (cases "k = 0")
  case True
  then show ?thesis by (simp add: nearest_def)
next
  case False
  let ?x = "of_int k :: real"
  have x: "?x \<noteq> 0" using False by simp
  have "1 \<le> \<bar>k\<bar>" using False by simp
  then have "(1::real) \<le> of_int \<bar>k\<bar>" by (simp only: of_int_1_le_iff)
  then have "1 \<le> \<bar>?x\<bar>" by simp
  then have "2 powr of_int 0 \<le> \<bar>?x\<bar>" by simp
  then have "0 \<le> log 2 \<bar>?x\<bar>" by (simp add: le_log_iff)
  then have b0: "0 \<le> binade ?x" unfolding binade_def by simp
  have "(of_int \<bar>k\<bar> :: real) < of_int (2 ^ 53)"
    using assms by (simp only: of_int_less_iff)
  then have lt53: "\<bar>?x\<bar> < 2 ^ 53" by simp
  then have "\<bar>?x\<bar> < 2 powr 53" by simp
  then have "log 2 \<bar>?x\<bar> < 53" using x by (simp add: log_less_iff)
  then have b52: "binade ?x \<le> 52" unfolding binade_def by linarith
  define m where "m = nat (52 - binade ?x)"
  have e: "max (binade ?x) (- 1022) - 52 = 0 - int m"
    using b0 b52 by (simp add: m_def)
  have q: "quantum ?x = 1 / 2 ^ m"
    unfolding quantum_def e by (simp only: two_powr_minus_nat) simp
  have "?x / quantum ?x = of_int (k * 2 ^ m)"
    by (simp add: q)
  then have "rne (?x / quantum ?x) = k * 2 ^ m"
    by (simp only: rne_of_int)
  then show ?thesis
    using x by (simp add: nearest_def q)
qed

lemma fl_of_int: "\<bar>k\<bar> < 2 ^ 53 \<Longrightarrow> fl (of_int k) = Finite (of_int k)"
proof -
  assume k: "\<bar>k\<bar> < 2 ^ 53"
  have "(of_int \<bar>k\<bar> :: real) < of_int (2 ^ 53)"
    using k by (simp only: of_int_less_iff)
  then have "\<bar>of_int k :: real\<bar> < 2 ^ 53" by simp
  also have "\<dots> \<le> (2::real) ^ 1024" by simp
  finally show ?thesis
    by (simp add: fl_def nearest_of_int[OF k])
qed

lemma fl_zero [simp]: "fl 0 = Finite 0"
  by (simp add: fl_def nearest_def)

lemma fl_nonneg:
  assumes "0 \<le> x"
  shows "fl x = PosInfinity \<or> (\<exists>a. fl x = Finite a \<and> 0 \<le> a)"
proof (cases "x = 0")
  case True
  then show ?thesis by simp
next
  case False
  with assms have "0 < x" by simp
  with nearest_nonneg[OF assms] show ?thesis
    by (simp add: fl_def Let_def)
qed


lemma js_sub_Finite [simp]: "js_sub (Finite x) (Finite y) = fl (x - y)"
  by (simp add: js_sub_def)


lemma rne_tie_odd: "odd k \<Longrightarrow> rne (of_int k + 1 / 2) = k + 1"
  by (simp add: rne_def Let_def)



lemma fl_evalI:
  assumes "2 ^ 52 \<le> \<bar>x\<bar> * 2 ^ n" and "\<bar>x\<bar> * 2 ^ n < 2 ^ 53" and "n \<le> 1074"
    and "of_int k - 1 / 2 < x * 2 ^ n" and "x * 2 ^ n < of_int k + 1 / 2"
  shows "fl x = Finite (of_int k / 2 ^ n)"
proof -
  have r: "rne (x * 2 ^ n) = k" using assms(4,5) by (rule rne_eqI)
  have n: "nearest x = of_int k / 2 ^ n"
    using nearest_small[OF assms(1-3)] r by simp
  have "\<bar>of_int k\<bar> \<le> \<bar>x * 2 ^ n\<bar> + 1 / 2"
    using assms(4,5) by linarith
  also have "\<dots> < 2 ^ 53 + 1 / 2" using assms(2) by (simp add: abs_mult)
  finally have kb: "\<bar>of_int k :: real\<bar> < 2 ^ 53 + 1 / 2" .
  have "(1::real) \<le> 2 ^ n" by simp
  then have "\<bar>of_int k :: real\<bar> / 2 ^ n \<le> \<bar>of_int k\<bar> / 1"
    by (intro divide_left_mono) simp_all
  then have "\<bar>of_int k / 2 ^ n :: real\<bar> \<le> \<bar>of_int k\<bar>" by simp
  also note kb
  also have "(2 ^ 53 + 1 / 2 :: real) < 2 ^ 1024" by simp
  finally show ?thesis
    by (simp add: fl_def n)
qed

lemma fl_cases: "fl x = PosInfinity \<or> fl x = NegInfinity \<or> (\<exists>a. fl x = Finite a)"
  by (simp add: fl_def Let_def)

lemma fl_not_NaN [simp]: "fl x \<noteq> NaN"
  by (simp add: fl_def Let_def)

lemma fl_PosInfinity: "fl x = PosInfinity \<Longrightarrow> 0 < x \<and> 2 ^ 1024 \<le> nearest x"
proof -
  assume a: "fl x = PosInfinity"
  then have x: "0 < x" and n: "2 ^ 1024 \<le> \<bar>nearest x\<bar>"
    by (auto simp: fl_def Let_def split: if_splits)
  from x have "0 \<le> nearest x" by (intro nearest_nonneg) simp
  with n x show ?thesis by simp
qed

lemma fl_NegInfinity: "fl x = NegInfinity \<Longrightarrow> x \<le> 0 \<and> nearest x \<le> - (2 ^ 1024)"
proof -
  assume a: "fl x = NegInfinity"
  then have x: "\<not> 0 < x" and n: "2 ^ 1024 \<le> \<bar>nearest x\<bar>"
    by (auto simp: fl_def Let_def split: if_splits)
  from x have "0 \<le> nearest (- x)" by (intro nearest_nonneg) simp
  then have "nearest x \<le> 0" by (simp add: nearest_minus)
  with n x show ?thesis by simp
qed

lemma fl_Finite: "fl x = Finite a \<Longrightarrow> nearest x = a \<and> \<bar>a\<bar> < 2 ^ 1024"
  by (auto simp: fl_def Let_def split: if_splits)

text \<open>Rounding is monotone in the order of numbers.\<close>

lemma fl_mono: "x \<le> y \<Longrightarrow> js_le (fl x) (fl y)"
proof -
  assume xy: "x \<le> y"
  have m: "nearest x \<le> nearest y" using xy by (rule nearest_mono)
  consider "fl y = PosInfinity" | "fl y = NegInfinity" | b where "fl y = Finite b"
    using fl_cases[of y] by blast
  then show ?thesis
  proof cases
    case 1
    then show ?thesis using fl_cases[of x] by auto
  next
    case 2
    from fl_NegInfinity[OF 2] m xy have "x \<le> 0" "nearest x \<le> - (2 ^ 1024)" by simp_all
    then have "fl x = NegInfinity" by (simp add: fl_def Let_def)
    with 2 show ?thesis by simp
  next
    case 3
    from fl_Finite[OF 3] have b: "nearest y = b" "\<bar>b\<bar> < 2 ^ 1024" by simp_all
    consider "fl x = PosInfinity" | "fl x = NegInfinity" | a where "fl x = Finite a"
      using fl_cases[of x] by blast
    then show ?thesis
    proof cases
      case 1
      from fl_PosInfinity[OF 1] m b show ?thesis by simp
    next
      case 2
      with 3 show ?thesis by simp
    next
      case 3
      from fl_Finite[OF 3] m b \<open>fl y = Finite b\<close> 3 show ?thesis by simp
    qed
  qed
qed

lemma le_nn_cases:
  assumes "le_nn a b"
  obtains x y where "a = Finite x" "b = Finite y" "0 \<le> x" "x \<le> y"
  | x where "a = Finite x" "b = PosInfinity" "0 \<le> x"
  | "a = PosInfinity" "b = PosInfinity"
  using assms unfolding le_nn_def
  by (cases a; cases b) auto

lemma js_le_fl_nonneg: "0 \<le> x \<Longrightarrow> js_le (Finite 0) (fl x)"
  using fl_nonneg[of x] by auto

lemma le_nn_fl: "0 \<le> x \<Longrightarrow> x \<le> y \<Longrightarrow> le_nn (fl x) (fl y)"
  by (simp add: le_nn_def js_le_fl_nonneg fl_mono)


lemma le_nn_mul:
  assumes "le_nn a b" and "0 < c"
  shows "le_nn (js_mul (Finite c) a) (js_mul (Finite c) b)"
  using assms(1)
proof (cases rule: le_nn_cases)
  case (1 x y)
  then have "le_nn (fl (c * x)) (fl (c * y))"
    using assms(2) by (intro le_nn_fl) (simp_all add: mult_left_mono)
  with 1 show ?thesis by simp
next
  case (2 x)
  then have "js_le (Finite 0) (fl (c * x))"
    using assms(2) by (intro js_le_fl_nonneg) simp
  with 2 assms(2) show ?thesis
    using fl_cases[of "c * x"] by (auto simp: le_nn_def)
next
  case 3
  with assms(2) show ?thesis by (simp add: le_nn_def)
qed

lemma nearest_one [simp]: "nearest 1 = 1"
  using nearest_of_int[of 1] by simp



lemma powr_compound_mono:
  fixes b b' e e' :: real
  assumes "1 \<le> b'" and "b' \<le> b" and "e' \<le> e" and "0 \<le> e"
  shows "b' powr e' \<le> b powr e"
proof (cases "0 \<le> e'")
  case True
  have "b' powr e' \<le> b powr e'"
    using assms True by (intro powr_mono2) auto
  also have "\<dots> \<le> b powr e"
    using assms by (intro powr_mono) auto
  finally show ?thesis .
next
  case False
  have "b' powr e' \<le> b' powr 0"
    using assms False by (intro powr_mono) auto
  also have "\<dots> = b powr 0"
    using assms by simp
  also have "\<dots> \<le> b powr e"
    using assms by (intro powr_mono) auto
  finally show ?thesis .
qed

lemma nearest_2_60: "nearest (2 ^ 60) = 2 ^ 60"
proof -
  have "nearest (2 ^ 60) = of_int (rne (2 ^ 60 / 2 ^ 8)) * 2 ^ 8"
    by (rule nearest_large) simp_all
  also have "(2 ^ 60 / 2 ^ 8 :: real) = of_int (2 ^ 52)" by simp
  finally show ?thesis by (simp only: rne_of_int) simp
qed

lemma fl_bounded:
  assumes "\<bar>x\<bar> \<le> 2 ^ 60"
  shows "\<exists>a. fl x = Finite a \<and> \<bar>a\<bar> \<le> 2 ^ 60"
proof -
  have "nearest x \<le> nearest (2 ^ 60)" using assms by (intro nearest_mono) simp
  moreover have "nearest (- (2 ^ 60)) \<le> nearest x" using assms by (intro nearest_mono) simp
  moreover have "nearest 1152921504606846976 = 1152921504606846976"
    using nearest_2_60 by simp
  ultimately have "\<bar>nearest x\<bar> \<le> 2 ^ 60"
    by (simp add: nearest_minus)
  moreover have "(2 ^ 60 :: real) < 2 ^ 1024" by simp
  ultimately show ?thesis by (simp add: fl_def Let_def)
qed

lemma log_close_refl: "0 < x \<Longrightarrow> 0 \<le> c \<Longrightarrow> log_close c x x"
  by (simp add: log_close_def)

lemma log_close_nonneg: "log_close c x y \<Longrightarrow> 0 \<le> c"
  unfolding log_close_def by linarith

lemma log_close_trans: "log_close c x y \<Longrightarrow> log_close d y z \<Longrightarrow> log_close (c + d) x z"
  by (auto simp: log_close_def)

lemma log_close_weaken: "log_close c x y \<Longrightarrow> c \<le> d \<Longrightarrow> log_close d x y"
  by (auto simp: log_close_def)

lemma log_close_mult: "log_close c x y \<Longrightarrow> 0 < a \<Longrightarrow> log_close c (a * x) (a * y)"
  by (auto simp: log_close_def ln_mult)

lemma log_close_mult_right: "log_close c x y \<Longrightarrow> 0 < a \<Longrightarrow> log_close c (x * a) (y * a)"
  by (auto simp: log_close_def ln_mult)

lemma log_close_div: "log_close c x y \<Longrightarrow> 0 < a \<Longrightarrow> log_close c (x / a) (y / a)"
  by (auto simp: log_close_def ln_div)

lemma log_close_upper: "log_close c x y \<Longrightarrow> x \<le> y * exp c"
proof -
  assume a: "log_close c x y"
  then have "ln x \<le> ln y + c" and x: "0 < x" and y: "0 < y" by (auto simp: log_close_def)
  then have "exp (ln x) \<le> exp (ln y + c)" by (simp only: exp_le_cancel_iff)
  then show ?thesis using x y by (simp add: exp_add)
qed

lemma log_close_lower: "log_close c x y \<Longrightarrow> y \<le> x * exp c"
proof -
  assume a: "log_close c x y"
  then have "ln y \<le> ln x + c" and x: "0 < x" and y: "0 < y" by (auto simp: log_close_def)
  then have "exp (ln y) \<le> exp (ln x + c)" by (simp only: exp_le_cancel_iff)
  then show ?thesis using x y by (simp add: exp_add)
qed

lemma log_closeI:
  assumes "0 < x" "0 < y" "x \<le> y * exp c" "y \<le> x * exp c"
  shows "log_close c x y"
proof -
  have "ln x \<le> ln (y * exp c)" using assms by (simp del: ln_mult)
  moreover have "ln y \<le> ln (x * exp c)" using assms by (simp del: ln_mult)
  ultimately show ?thesis using assms by (simp add: log_close_def ln_mult)
qed

lemma log_close_add1: "log_close c x y \<Longrightarrow> log_close c (1 + x) (1 + y)"
proof -
  assume a: "log_close c x y"
  then have x: "0 < x" and y: "0 < y" and c: "0 \<le> c" by (auto simp: log_close_def)
  have e: "1 \<le> exp c" using c by simp
  have "1 + x \<le> exp c + y * exp c" using log_close_upper[OF a] e by linarith
  then have 1: "1 + x \<le> (1 + y) * exp c" by (simp add: algebra_simps)
  have "1 + y \<le> exp c + x * exp c" using log_close_lower[OF a] e by linarith
  then have 2: "1 + y \<le> (1 + x) * exp c" by (simp add: algebra_simps)
  show ?thesis using x y 1 2 by (intro log_closeI) simp_all
qed

lemma exp_half_le: "exp (1 / 2 :: real) \<le> 2"
proof -
  have "exp (1 / 2 :: real) \<le> 1 + 1 / 2 + (1 / 2)\<^sup>2" by (intro exp_bound) simp_all
  also have "\<dots> \<le> 2" by (simp add: power2_eq_square)
  finally show ?thesis .
qed

lemma exp_small: "0 \<le> c \<Longrightarrow> c \<le> 1 / 2 \<Longrightarrow> exp c \<le> 1 + 2 * (c :: real)"
proof -
  assume c: "0 \<le> c" "c \<le> 1 / 2"
  have "exp c \<le> 1 + c + c\<^sup>2" using c by (intro exp_bound) simp_all
  moreover have "c * c \<le> c * (1 / 2)" using c by (intro mult_left_mono) simp_all
  ultimately show ?thesis using c unfolding power2_eq_square by linarith
qed

lemma log_close_bounds:
  assumes "log_close c x y" and "c \<le> 1 / 2"
  shows "y / 2 \<le> x" and "x \<le> 2 * y"
proof -
  from assms(1) have x: "0 < x" and y: "0 < y" by (auto simp: log_close_def)
  have "exp c \<le> exp (1 / 2)" using assms(2) by (simp only: exp_le_cancel_iff)
  then have e: "exp c \<le> 2" using exp_half_le by linarith
  have "x \<le> y * exp c" using assms(1) by (rule log_close_upper)
  also have "\<dots> \<le> y * 2" using e y by (intro mult_left_mono) simp_all
  finally show "x \<le> 2 * y" by simp
  have "y \<le> x * exp c" using assms(1) by (rule log_close_lower)
  also have "\<dots> \<le> x * 2" using e x by (intro mult_left_mono) simp_all
  finally show "y / 2 \<le> x" by simp
qed

lemma log_close_abs:
  assumes "log_close c x y" and "c \<le> 1 / 2"
  shows "\<bar>x - y\<bar> \<le> 2 * c * y"
proof -
  from assms(1) have x: "0 < x" and y: "0 < y" and c: "0 \<le> c" by (auto simp: log_close_def)
  have e: "exp c \<le> 1 + 2 * c" using c assms(2) by (rule exp_small)
  have "x \<le> y * exp c" using assms(1) by (rule log_close_upper)
  also have "\<dots> \<le> y * (1 + 2 * c)" using e y by (intro mult_left_mono) simp_all
  finally have 1: "x - y \<le> 2 * c * y" by (simp add: algebra_simps)
  have "ln y - c \<le> ln x" using assms(1) unfolding log_close_def by linarith
  then have "exp (ln y - c) \<le> exp (ln x)" by (simp only: exp_le_cancel_iff)
  then have "y * exp (- c) \<le> x" using x y by (simp add: exp_diff exp_minus field_simps)
  moreover have "1 + (- c) \<le> exp (- c)" by (rule exp_ge_add_one_self)
  then have "y * (1 + (- c)) \<le> y * exp (- c)" using y by (intro mult_left_mono) simp_all
  ultimately have "y - x \<le> c * y" by (simp add: algebra_simps)
  moreover have "c * y \<le> 2 * c * y" using c y by simp
  ultimately show ?thesis using 1 by linarith
qed

lemma fl_rel:
  assumes lo: "1 / 2 ^ 1022 \<le> x" and hi: "x \<le> 2 ^ 60"
  shows "\<exists>y. fl x = Finite y \<and> \<bar>y - x\<bar> \<le> x / 2 ^ 53"
proof -
  have "(0::real) < 1 / 2 ^ 1022" by simp
  then have x: "0 < x" using lo by linarith
  then have x0: "x \<noteq> 0" by simp
  from fl_bounded[of x] hi x obtain a where a: "fl x = Finite a" by auto
  then have an: "a = nearest x" by (auto simp: fl_def Let_def split: if_splits)
  have "2 powr of_int (- 1022) \<le> \<bar>x\<bar>"
    using lo x by (simp add: powr_minus_divide)
  then have "of_int (- 1022) \<le> log 2 \<bar>x\<bar>"
    using x by (simp add: le_log_iff del: of_int_minus)
  then have b: "- 1022 \<le> binade x" unfolding binade_def by (simp add: le_floor_iff)
  have q: "2 ^ 52 * quantum x \<le> x"
    using scaled_lower[OF x0 b] x by (simp add: pos_le_divide_eq)
  define q where "q = quantum x"
  define r :: real where "r = of_int (rne (x / q))"
  have q0: "0 < q" by (simp add: q_def)
  have "\<bar>r - x / q\<bar> \<le> 1 / 2"
    using rne_lower[of "x / q"] rne_upper[of "x / q"] unfolding r_def by linarith
  then have "\<bar>r - x / q\<bar> * q \<le> 1 / 2 * q"
    using q0 by (intro mult_right_mono) simp_all
  moreover have "\<bar>r - x / q\<bar> * q = \<bar>(r - x / q) * q\<bar>"
    using q0 by (simp only: abs_mult abs_of_pos)
  moreover have "(r - x / q) * q = r * q - x"
    using q0 by (simp add: algebra_simps)
  ultimately have "\<bar>r * q - x\<bar> \<le> q / 2" by simp
  then have "\<bar>of_int (rne (x / quantum x)) * quantum x - x\<bar> \<le> quantum x / 2"
    by (simp only: r_def q_def)
  then have "\<bar>a - x\<bar> \<le> quantum x / 2" using x0 by (simp add: an nearest_def)
  also have "\<dots> \<le> x / 2 ^ 53" using q by (simp add: field_simps)
  finally show ?thesis using a by simp
qed

lemma ln_one_plus_small: "\<bar>d\<bar> \<le> 1 / 2 \<Longrightarrow> \<bar>ln (1 + d)\<bar> \<le> 2 * \<bar>d :: real\<bar>"
proof -
  assume d: "\<bar>d\<bar> \<le> 1 / 2"
  then have "\<bar>ln (1 + d) - d\<bar> \<le> 2 * d\<^sup>2" by (rule abs_ln_one_plus_x_minus_x_bound)
  moreover have "\<bar>d\<bar> * \<bar>d\<bar> \<le> \<bar>d\<bar> * (1 / 2)" using d by (intro mult_left_mono) simp_all
  then have "2 * d\<^sup>2 \<le> \<bar>d\<bar>" by (simp add: power2_eq_square)
  ultimately show ?thesis by linarith
qed

lemma fl_log_close:
  assumes lo: "1 / 2 ^ 1022 \<le> x" and hi: "x \<le> 2 ^ 60"
  shows "\<exists>y. fl x = Finite y \<and> log_close (1 / 2 ^ 52) y x"
proof -
  have "(0::real) < 1 / 2 ^ 1022" by simp
  then have x: "0 < x" using lo by linarith
  from fl_rel[OF lo hi] obtain y where y: "fl x = Finite y" "\<bar>y - x\<bar> \<le> x / 2 ^ 53" by blast
  define d where "d = (y - x) / x"
  have yx: "y = x * (1 + d)" using x by (simp add: d_def field_simps)
  have "\<bar>d\<bar> = \<bar>y - x\<bar> / x" using x by (simp add: d_def)
  also have "\<dots> \<le> (x / 2 ^ 53) / x" using y(2) x by (intro divide_right_mono) simp_all
  also have "\<dots> = 1 / 2 ^ 53" using x by simp
  finally have d: "\<bar>d\<bar> \<le> 1 / 2 ^ 53" .
  then have d2: "\<bar>d\<bar> \<le> 1 / 2" by simp
  then have pos: "0 < 1 + d" by linarith
  then have y0: "0 < y" using x yx by simp
  have "ln y - ln x = ln (1 + d)" using x pos by (simp add: yx ln_mult)
  moreover have "\<bar>ln (1 + d)\<bar> \<le> 2 * \<bar>d\<bar>" using d2 by (rule ln_one_plus_small)
  moreover have "2 * \<bar>d\<bar> \<le> 1 / 2 ^ 52" using d by simp
  ultimately have "\<bar>ln y - ln x\<bar> \<le> 1 / 2 ^ 52" by linarith
  then show ?thesis using y(1) y0 x by (auto simp: log_close_def)
qed

lemma fl_step:
  assumes cl: "log_close c x xs" and c: "c \<le> 1 / 2"
    and lo: "1 / 2 ^ 1021 \<le> xs" and hi: "xs \<le> 2 ^ 59"
  shows "\<exists>y. fl x = Finite y \<and> log_close (c + 1 / 2 ^ 52) y xs"
proof -
  have "xs / 2 \<le> x" "x \<le> 2 * xs" using cl c by (rule log_close_bounds)+
  then have "1 / 2 ^ 1022 \<le> x" "x \<le> 2 ^ 60" using lo hi by simp_all
  from fl_log_close[OF this] obtain y where y: "fl x = Finite y" "log_close (1 / 2 ^ 52) y x"
    by blast
  from log_close_trans[OF y(2) cl] have "log_close (c + 1 / 2 ^ 52) y xs"
    by (simp add: add.commute)
  with y(1) show ?thesis by blast
qed

section \<open>Account ledger: theorems\<close>




lemma set_balance_same:
  "find (\<lambda>a. acc_id a = i) as = Some a \<Longrightarrow> set_balance i (balance a) as = as"
  by (induction as) (auto split: if_splits)


lemma ledger0_find: "find_account ledger0 ''account_1'' = Some account_1"
  by (simp add: find_account_def ledger0_def account_1_def)


lemma fl_small_ints [simp]:
  "fl 0 = Finite 0" "fl 1200 = Finite 1200" "fl 900 = Finite 900" "fl 600 = Finite 600"
  "fl 200 = Finite 200" "fl 70 = Finite 70"
  using fl_of_int[of 0] fl_of_int[of 1200] fl_of_int[of 900] fl_of_int[of 600]
    fl_of_int[of 200] fl_of_int[of 70]
  by simp_all












subsection \<open>C1: a transfer\<close>

text \<open>
  C1, as stated, fails. The claim says that a transaction of type transfer debits the
  source account and credits the destination account by the amount. The handler has no
  destination account, and for the type transfer neither branch of its balance
  computation applies: with account_1 at 1000 and account_2 at 0, a transfer of 250 on
  account_1 is accepted, one entry with \<open>balance_before = balance_after = 1000\<close> is
  appended, and the balances stay 1000 and 0, not 750 and 250.
\<close>

theorem transfer_counterexample:
  "applyTransaction ledger0 (request ''account_1'' ''transfer'' (Finite 250)) =
     Inr (ledger0\<lparr>transactions :=
                     [entry 1 ''account_1'' ''transfer'' (Finite 250) (Finite 1000) (Finite 1000)],
                   transactionIdCounter := 2\<rparr>,
          entry 1 ''account_1'' ''transfer'' (Finite 250) (Finite 1000) (Finite 1000))
   \<and> map balance (accounts ledger0) = [Finite 1000, Finite 0]
   \<and> [1000, 0] \<noteq> [1000 - 250, 0 + (250::real)]"
  by (simp add: applyTransaction_def find_account_def ledger0_def account_1_def account_2_def
      request_def entry_def newBalance_def Let_def)

text \<open>
  C1, amended: a transaction of type transfer on an existing account, with an amount
  that the handler does not refuse (not \<^verbatim>\<open><= 0\<close>), succeeds, changes no account (the
  state differs only by the appended entry and the id counter), and the entry it appends
  has type transfer, the requested amount, and \<open>balance_after = balance_before\<close>, the
  balance of the account.
\<close>

theorem transfer_records_only:
  assumes "find_account s (req_account_id r) = Some account"
    and "req_account_id r \<noteq> []" and "req_type r = ''transfer''"
    and "req_amount r = Some amt" and "\<not> js_le amt (Finite 0)"
  shows "\<exists>t. applyTransaction s r =
               Inr (s\<lparr>transactions := transactions s @ [t],
                      transactionIdCounter := Suc (transactionIdCounter s)\<rparr>, t)
           \<and> txn_type t = ''transfer'' \<and> amount t = amt
           \<and> balance_before t = balance account \<and> balance_after t = balance account"
proof -
  have "set_balance (req_account_id r) (balance account) (accounts s) = accounts s"
    using assms(1) by (simp add: find_account_def set_balance_same)
  then show ?thesis
    using assms by (simp add: applyTransaction_def newBalance_def Let_def)
qed

text \<open>
  Witness for C1 amended: the transfer of 250 on account_1.
\<close>

theorem transfer_records_only_witness:
  "\<exists>t. applyTransaction ledger0 (request ''account_1'' ''transfer'' (Finite 250)) =
          Inr (ledger0\<lparr>transactions := transactions ledger0 @ [t],
                 transactionIdCounter := Suc (transactionIdCounter ledger0)\<rparr>, t)
      \<and> txn_type t = ''transfer'' \<and> amount t = Finite 250
      \<and> balance_before t = Finite 1000 \<and> balance_after t = Finite 1000"
  using transfer_records_only[of ledger0 "request ''account_1'' ''transfer'' (Finite 250)"
      account_1 "Finite 250"]
  by (simp add: ledger0_find request_def account_1_def)

subsection \<open>C2: conservation of the balance\<close>




subsection \<open>C3: a debit without funds\<close>



subsection \<open>C4: the floor of the balance\<close>




section \<open>Fixed deposits: theorems\<close>

subsection \<open>The formulas in doubles at the examples\<close>

text \<open>
  Each lemma is one operation of the source at the doubles it meets: the maturity amount
  of 100000 at 8% for 12 months and of 1000 at 6% for 6 months, and the premature payout
  of the first deposit after 24 and after 6 months with penalty rate 1.
\<close>

lemma golden_1: "js_div (Finite 8) (Finite 100) = Finite (5764607523034235 / 72057594037927936)"
proof -
  have "fl (2 / 25) = Finite (of_int (5764607523034235) / 2 ^ 56)"
    by (rule fl_evalI) simp_all
  then show ?thesis by (simp add: power_divide)
qed

lemma golden_2: "js_div (Finite (5764607523034235 / 72057594037927936)) (Finite 4) = Finite (5764607523034235 / 288230376151711744)"
proof -
  have "fl (5764607523034235 / 288230376151711744) = Finite (of_int (5764607523034235) / 2 ^ 58)"
    by (rule fl_evalI) simp_all
  then show ?thesis by (simp add: power_divide)
qed

lemma golden_3: "js_add (Finite 1) (Finite (5764607523034235 / 288230376151711744)) = Finite (2296835809958953 / 2251799813685248)"
proof -
  have "fl (293994983674745979 / 288230376151711744) = Finite (of_int (4593671619917906) / 2 ^ 52)"
    by (rule fl_evalI) simp_all
  then show ?thesis by (simp add: power_divide)
qed

lemma golden_4: "js_div (Finite 12) (Finite 12) = Finite 1"
proof -
  have "fl (1) = Finite (of_int (4503599627370496) / 2 ^ 52)"
    by (rule fl_evalI) simp_all
  then show ?thesis by (simp add: power_divide)
qed

lemma golden_5: "js_mul (Finite 4) (Finite 1) = Finite 4"
proof -
  have "fl (4) = Finite (of_int (4503599627370496) / 2 ^ 50)"
    by (rule fl_evalI) simp_all
  then show ?thesis by (simp add: power_divide)
qed

lemma golden_6: "Math_pow (Finite (2296835809958953 / 2251799813685248)) (Finite 4) = Finite (4874841072429841 / 4503599627370496)"
proof -
  have "fl (27830422691734953032678636107831506154884725532852558485851681 / 25711008708143844408671393477458601640355247900524685364822016) = Finite (of_int (4874841072429841) / 2 ^ 52)"
    by (rule fl_evalI) simp_all
  then show ?thesis by (simp add: power_divide)
qed

lemma golden_7: "js_mul (Finite 100000) (Finite (4874841072429841 / 4503599627370496)) = Finite (7438417163741823 / 68719476736)"
proof -
  have "fl (15233878351343253125 / 140737488355328) = Finite (of_int (7438417163741823) / 2 ^ 36)"
    by (rule fl_evalI) simp_all
  then show ?thesis by (simp add: power_divide)
qed

lemma golden_8: "js_mul (Finite (7438417163741823 / 68719476736)) (Finite 100) = Finite (5811263409173299 / 536870912)"
proof -
  have "fl (185960429093545575 / 17179869184) = Finite (of_int (5811263409173299) / 2 ^ 29)"
    by (rule fl_evalI) simp_all
  then show ?thesis by (simp add: power_divide)
qed

lemma golden_9: "Math_round (Finite (5811263409173299 / 536870912)) = Finite 10824322"
proof -
  have "\<lfloor>5811263409173299 / 536870912 + 1 / 2 :: real\<rfloor> = 10824322"
    unfolding floor_eq_iff by simp
  then show ?thesis by simp
qed

lemma golden_10: "js_div (Finite 10824322) (Finite 100) = Finite (3719208719309865 / 34359738368)"
proof -
  have "fl (5412161 / 50) = Finite (of_int (7438417438619730) / 2 ^ 36)"
    by (rule fl_evalI) simp_all
  then show ?thesis by (simp add: power_divide)
qed

lemma tie_1: "js_div (Finite 6) (Finite 100) = Finite (1080863910568919 / 18014398509481984)"
proof -
  have "fl (3 / 50) = Finite (of_int (8646911284551352) / 2 ^ 57)"
    by (rule fl_evalI) simp_all
  then show ?thesis by (simp add: power_divide)
qed

lemma tie_2: "js_div (Finite (1080863910568919 / 18014398509481984)) (Finite 4) = Finite (1080863910568919 / 72057594037927936)"
proof -
  have "fl (1080863910568919 / 72057594037927936) = Finite (of_int (8646911284551352) / 2 ^ 59)"
    by (rule fl_evalI) simp_all
  then show ?thesis by (simp add: power_divide)
qed

lemma tie_3: "js_add (Finite 1) (Finite (1080863910568919 / 72057594037927936)) = Finite (4571153621781053 / 4503599627370496)"
proof -
  have "fl (73138457948496855 / 72057594037927936) = Finite (of_int (4571153621781053) / 2 ^ 52)"
    by (rule fl_evalI) simp_all
  then show ?thesis by (simp add: power_divide)
qed

lemma tie_4: "js_div (Finite 6) (Finite 12) = Finite (1 / 2)"
proof -
  have "fl (1 / 2) = Finite (of_int (4503599627370496) / 2 ^ 53)"
    by (rule fl_evalI) simp_all
  then show ?thesis by (simp add: power_divide)
qed

lemma tie_5: "js_mul (Finite 4) (Finite (1 / 2)) = Finite 2"
proof -
  have "fl (2) = Finite (of_int (4503599627370496) / 2 ^ 51)"
    by (rule fl_evalI) simp_all
  then show ?thesis by (simp add: power_divide)
qed

lemma tie_6: "Math_pow (Finite (4571153621781053 / 4503599627370496)) (Finite 2) = Finite (579965115763471 / 562949953421312)"
proof -
  have "fl (20895445433922038139895869788809 / 20282409603651670423947251286016) = Finite (of_int (4639720926107768) / 2 ^ 52)"
    by (rule fl_evalI) simp_all
  then show ?thesis by (simp add: power_divide)
qed

lemma tie_7: "js_mul (Finite 1000) (Finite (579965115763471 / 562949953421312)) = Finite (4530977466902117 / 4398046511104)"
proof -
  have "fl (72495639470433875 / 70368744177664) = Finite (of_int (4530977466902117) / 2 ^ 42)"
    by (rule fl_evalI) simp_all
  then show ?thesis by (simp add: power_divide)
qed

lemma tie_8: "js_mul (Finite (4530977466902117 / 4398046511104)) (Finite 100) = Finite (3539826146017279 / 34359738368)"
proof -
  have "fl (113274436672552925 / 1099511627776) = Finite (of_int (7079652292034558) / 2 ^ 36)"
    by (rule fl_evalI) simp_all
  then show ?thesis by (simp add: power_divide)
qed

lemma tie_9: "Math_round (Finite (3539826146017279 / 34359738368)) = Finite 103022"
proof -
  have "\<lfloor>3539826146017279 / 34359738368 + 1 / 2 :: real\<rfloor> = 103022"
    unfolding floor_eq_iff by simp
  then show ?thesis by simp
qed

lemma tie_10: "js_div (Finite 103022) (Finite 100) = Finite (4530955476669563 / 4398046511104)"
proof -
  have "fl (51511 / 50) = Finite (of_int (4530955476669563) / 2 ^ 42)"
    by (rule fl_evalI) simp_all
  then show ?thesis by (simp add: power_divide)
qed

lemma late_1: "js_sub (Finite 8) (Finite 1) = Finite 7"
proof -
  have "fl (7) = Finite (of_int (7881299347898368) / 2 ^ 50)"
    by (rule fl_evalI) simp_all
  then show ?thesis by (simp add: power_divide)
qed

lemma late_2: "Math_max (Finite 0) (Finite 7) = Finite 7"
  by simp

lemma late_3: "js_div (Finite 7) (Finite 100) = Finite (1261007895663739 / 18014398509481984)"
proof -
  have "fl (7 / 100) = Finite (of_int (5044031582654956) / 2 ^ 56)"
    by (rule fl_evalI) simp_all
  then show ?thesis by (simp add: power_divide)
qed

lemma late_4: "js_div (Finite (1261007895663739 / 18014398509481984)) (Finite 4) = Finite (1261007895663739 / 72057594037927936)"
proof -
  have "fl (1261007895663739 / 72057594037927936) = Finite (of_int (5044031582654956) / 2 ^ 58)"
    by (rule fl_evalI) simp_all
  then show ?thesis by (simp add: power_divide)
qed

lemma late_5: "js_add (Finite 1) (Finite (1261007895663739 / 72057594037927936)) = Finite (572801577606185 / 562949953421312)"
proof -
  have "fl (73318601933591675 / 72057594037927936) = Finite (of_int (4582412620849480) / 2 ^ 52)"
    by (rule fl_evalI) simp_all
  then show ?thesis by (simp add: power_divide)
qed








lemma early_8: "Math_pow (Finite (572801577606185 / 562949953421312)) (Finite 2) = Finite (2331302420857173 / 2251799813685248)"
proof -
  have "fl (328101647308134377274950254225 / 316912650057057350374175801344) = Finite (of_int (4662604841714346) / 2 ^ 52)"
    by (rule fl_evalI) simp_all
  then show ?thesis by (simp add: power_divide)
qed

lemma early_9: "js_mul (Finite 100000) (Finite (2331302420857173 / 2251799813685248)) = Finite (7114570376151041 / 68719476736)"
proof -
  have "fl (7285320065178665625 / 70368744177664) = Finite (of_int (7114570376151041) / 2 ^ 36)"
    by (rule fl_evalI) simp_all
  then show ?thesis by (simp add: power_divide)
qed

lemma early_10: "js_mul (Finite (7114570376151041 / 68719476736)) (Finite 100) = Finite (5558258106368001 / 536870912)"
proof -
  have "fl (177864259403776025 / 17179869184) = Finite (of_int (5558258106368001) / 2 ^ 29)"
    by (rule fl_evalI) simp_all
  then show ?thesis by (simp add: power_divide)
qed

lemma early_11: "Math_round (Finite (5558258106368001 / 536870912)) = Finite 10353063"
proof -
  have "\<lfloor>5558258106368001 / 536870912 + 1 / 2 :: real\<rfloor> = 10353063"
    unfolding floor_eq_iff by simp
  then show ?thesis by simp
qed

lemma early_12: "js_div (Finite 10353063) (Finite 100) = Finite (889321339968553 / 8589934592)"
proof -
  have "fl (10353063 / 100) = Finite (of_int (7114570719748424) / 2 ^ 36)"
    by (rule fl_evalI) simp_all
  then show ?thesis by (simp add: power_divide)
qed

lemma cents_1: "js_div (Finite 103023) (Finite 100) = Finite (2265499728567337 / 2199023255552)"
proof -
  have "fl (103023 / 100) = Finite (of_int (4530999457134674) / 2 ^ 42)"
    by (rule fl_evalI) simp_all
  then show ?thesis by (simp add: power_divide)
qed




lemma calculateMaturityAmount_in_cents:
  assumes "0 < P" "0 < R" "0 < T"
  shows "calculateMaturityAmount (Finite P) (Finite R) (Finite T) =
           in_cents (Finite P)
             (Math_pow (js_add (Finite 1) (js_div (js_div (Finite R) (Finite 100)) (Finite 4)))
                (js_mul (Finite 4) (js_div (Finite T) (Finite 12))))"
  using assms by (simp add: calculateMaturityAmount_def falsy_def in_cents_def Let_def)




text \<open>
  The two deposits of the examples, evaluated with the lemmas above: the operations are
  rewritten by those lemmas alone, not by the equations of their definitions.
\<close>

lemmas js_arith =
  js_div.simps js_mul.simps js_add.simps js_sub_Finite Math_pow.simps Math_round.simps

lemmas golden_steps = golden_1 golden_2 golden_3 golden_4 golden_5 golden_6 golden_7 golden_8
  golden_9 golden_10

lemma golden_maturity_amount:
  "calculateMaturityAmount (Finite 100000) (Finite 8) (Finite 12)
     = js_div (Finite 10824322) (Finite 100)"
  by (simp add: calculateMaturityAmount_def falsy_def Let_def golden_steps del: js_arith)

lemma tie_maturity_amount:
  "calculateMaturityAmount (Finite 1000) (Finite 6) (Finite 6)
     = js_div (Finite 103022) (Finite 100)"
  by (simp add: calculateMaturityAmount_def falsy_def Let_def
      tie_1 tie_2 tie_3 tie_4 tie_5 tie_6 tie_7 tie_8 tie_9 tie_10 del: js_arith)

lemma fd_example_eq:
  "fd_example = \<lparr>fd_id = 31, principal_amount = Finite 100000, interest_rate = Finite 8,
     tenure_months = Finite 12, maturity_amount = js_div (Finite 10824322) (Finite 100),
     fd_status = FD_ACTIVE\<rparr>"
  by (simp add: fd_example_def new_FixedDeposit_def golden_maturity_amount)


text \<open>
  Closed 6 months after its start with penalty rate 1, the deposit pays 103530.63.
\<close>

lemma early_close:
  "prematureClose False 6 (Finite 1) [fd_example] fd_example =
     (Inr (closed_example (js_div (Finite 10353063) (Finite 100))),
      [closed_example (js_div (Finite 10353063) (Finite 100))])"
  by (simp add: prematureClose_def prematureAmount_def closed_example_def fd_example_eq Let_def
      late_1 late_2 late_3 late_4 late_5 tie_4 tie_5 early_8 early_9 early_10 early_11
      early_12 golden_10 del: js_arith)

subsection \<open>C6: premature closure\<close>




lemma log_close_powr:
  assumes b: "log_close c1 b B" and n: "log_close c2 n N" and c2: "c2 \<le> 1 / 2"
    and B: "1 \<le> B" "B \<le> 9 / 8" and N: "N \<le> 40"
  shows "log_close (80 * c1 + 10 * c2) (b powr n) (B powr N)"
proof -
  from b have b0: "0 < b" and B0: "0 < B" and lb: "\<bar>ln b - ln B\<bar> \<le> c1"
    by (auto simp: log_close_def)
  from n have n0: "0 < n" and N0: "0 < N" and c20: "0 \<le> c2"
    by (auto simp: log_close_def intro: log_close_nonneg)
  have c10: "0 \<le> c1" using b by (rule log_close_nonneg)
  have "n \<le> 2 * N" using n c2 by (rule log_close_bounds)
  then have n80: "n \<le> 80" using N by simp
  have "\<bar>n - N\<bar> \<le> 2 * c2 * N" using n c2 by (rule log_close_abs)
  also have "\<dots> \<le> 2 * c2 * 40" using N c20 by (intro mult_left_mono) simp_all
  finally have nN: "\<bar>n - N\<bar> \<le> 80 * c2" by simp
  have lB0: "0 \<le> ln B" using B by simp
  have "ln B \<le> B - 1" using B0 by (rule ln_le_minus_one)
  then have lB: "\<bar>ln B\<bar> \<le> 1 / 8" using B lB0 by simp
  have "\<bar>n * (ln b - ln B)\<bar> = \<bar>n\<bar> * \<bar>ln b - ln B\<bar>" by (rule abs_mult)
  also have "\<dots> \<le> 80 * c1" using n80 n0 lb by (intro mult_mono) simp_all
  finally have 1: "\<bar>n * (ln b - ln B)\<bar> \<le> 80 * c1" .
  have "\<bar>(n - N) * ln B\<bar> = \<bar>n - N\<bar> * \<bar>ln B\<bar>" by (rule abs_mult)
  also have "\<dots> \<le> (80 * c2) * (1 / 8)" using nN lB c20 by (intro mult_mono) simp_all
  finally have 2: "\<bar>(n - N) * ln B\<bar> \<le> 10 * c2" by simp
  have "n * ln b - N * ln B = n * (ln b - ln B) + (n - N) * ln B"
    by (simp add: algebra_simps)
  then have "\<bar>n * ln b - N * ln B\<bar> \<le> 80 * c1 + 10 * c2"
    using 1 2 by linarith
  moreover have "ln (b powr n) = n * ln b" using b0 by (simp add: ln_powr)
  moreover have "ln (B powr N) = N * ln B" using B0 by (simp add: ln_powr)
  ultimately show ?thesis using b0 B0 by (simp add: log_close_def)
qed

lemma compound_bounds:
  assumes R: "1 / 10 \<le> R" "R \<le> 50" and T: "6 \<le> T" "T \<le> (120 :: real)"
  shows "1 \<le> (1 + R / 400) powr (4 * (T / 12))"
    and "(1 + R / 400) powr (4 * (T / 12)) \<le> 112"
proof -
  have "(1::real) powr 0 \<le> (1 + R / 400) powr (4 * (T / 12))"
    using R T by (intro powr_compound_mono) simp_all
  then show "1 \<le> (1 + R / 400) powr (4 * (T / 12))" by simp
  have "(1 + R / 400) powr (4 * (T / 12)) \<le> (9 / 8) powr 40"
    using R T by (intro powr_compound_mono) simp_all
  also have "(9 / 8 :: real) powr 40 = (9 / 8) ^ 40" by simp
  also have "\<dots> \<le> 112" by (simp add: power_divide)
  finally show "(1 + R / 400) powr (4 * (T / 12)) \<le> 112" .
qed

lemma maturity_error:
  assumes P: "1000 \<le> P" "P \<le> 10000000" and R: "1 / 10 \<le> R" "R \<le> 50"
    and T: "6 \<le> T" "T \<le> 120"
  shows "\<exists>v. js_mul
               (js_mul (Finite P)
                  (Math_pow (js_add (Finite 1) (js_div (js_div (Finite R) (Finite 100)) (Finite 4)))
                     (js_mul (Finite 4) (js_div (Finite T) (Finite 12)))))
               (Finite 100) = Finite v
             \<and> \<bar>v - 100 * exact_maturity_amount P R T\<bar> \<le> 1 / 32"
proof -
  define B where "B = 1 + R / 400"
  define N where "N = 4 * (T / 12)"
  define X where "X = P * B powr N"
  have W: "1 \<le> B powr N" "B powr N \<le> 112"
    using compound_bounds[OF R T] by (simp_all add: B_def N_def)
  have X: "1000 \<le> X" "X \<le> 1120000000"
  proof -
    have "1000 * 1 \<le> P * B powr N" using P W by (intro mult_mono) simp_all
    then show "1000 \<le> X" by (simp add: X_def)
    have "P * B powr N \<le> 10000000 * 112" using P W by (intro mult_mono) simp_all
    then show "X \<le> 1120000000" by (simp add: X_def)
  qed
  obtain r1 where r1: "fl (R / 100) = Finite r1" "log_close (1 / 2 ^ 52) r1 (R / 100)"
    using fl_log_close[of "R / 100"] R by auto
  have "log_close (1 / 2 ^ 52) (r1 / 4) (R / 100 / 4)"
    using r1(2) by (rule log_close_div) simp
  then have "log_close (1 / 2 ^ 52) (r1 / 4) (R / 400)" by simp
  from fl_step[OF this] R obtain r2 where
    r2: "fl (r1 / 4) = Finite r2" "log_close (1 / 2 ^ 52 + 1 / 2 ^ 52) r2 (R / 400)"
    by auto
  have "log_close (1 / 2 ^ 52 + 1 / 2 ^ 52) (1 + r2) B"
    unfolding B_def using r2(2) by (rule log_close_add1)
  from fl_step[OF this] R obtain b where
    b: "fl (1 + r2) = Finite b" "log_close (1 / 2 ^ 52 + 1 / 2 ^ 52 + 1 / 2 ^ 52) b B"
    by (auto simp: B_def)
  then have b3: "log_close (3 / 2 ^ 52) b B" by simp
  obtain t where t: "fl (T / 12) = Finite t" "log_close (1 / 2 ^ 52) t (T / 12)"
    using fl_log_close[of "T / 12"] T by auto
  have "log_close (1 / 2 ^ 52) (4 * t) N"
    unfolding N_def using t(2) by (rule log_close_mult) simp
  from fl_step[OF this] T obtain n where
    n: "fl (4 * t) = Finite n" "log_close (1 / 2 ^ 52 + 1 / 2 ^ 52) n N"
    by (auto simp: N_def)
  then have n2: "log_close (2 / 2 ^ 52) n N" by simp
  have "log_close (80 * (3 / 2 ^ 52) + 10 * (2 / 2 ^ 52)) (b powr n) (B powr N)"
    using b3 n2 R T by (intro log_close_powr) (simp_all add: B_def N_def)
  then have "log_close (260 / 2 ^ 52) (b powr n) (B powr N)" by simp
  from fl_step[OF this] W obtain w where
    w: "fl (b powr n) = Finite w" "log_close (260 / 2 ^ 52 + 1 / 2 ^ 52) w (B powr N)"
    by auto
  have "log_close (260 / 2 ^ 52 + 1 / 2 ^ 52) (P * w) X"
    unfolding X_def using w(2) P by (intro log_close_mult) simp_all
  from fl_step[OF this] X obtain m where
    m: "fl (P * w) = Finite m" "log_close (260 / 2 ^ 52 + 1 / 2 ^ 52 + 1 / 2 ^ 52) m X"
    by auto
  have "log_close (260 / 2 ^ 52 + 1 / 2 ^ 52 + 1 / 2 ^ 52) (m * 100) (X * 100)"
    using m(2) by (rule log_close_mult_right) simp
  from fl_step[OF this] X obtain v where
    v: "fl (m * 100) = Finite v"
      "log_close (260 / 2 ^ 52 + 1 / 2 ^ 52 + 1 / 2 ^ 52 + 1 / 2 ^ 52) v (X * 100)"
    by auto
  then have "log_close (263 / 2 ^ 52) v (X * 100)" by simp
  then have "\<bar>v - X * 100\<bar> \<le> 2 * (263 / 2 ^ 52) * (X * 100)"
    by (rule log_close_abs) simp
  also have "\<dots> \<le> 2 * (263 / 2 ^ 52) * (1120000000 * 100)" using X by simp
  also have "\<dots> \<le> 1 / 32" by simp
  finally have err: "\<bar>v - 100 * exact_maturity_amount P R T\<bar> \<le> 1 / 32"
    by (simp add: X_def B_def N_def exact_maturity_amount_def mult.commute)
  have b0: "0 < b" using b(2) by (simp add: log_close_def)
  have n0: "n \<noteq> 0" using n(2) by (auto simp: log_close_def)
  have "js_mul
          (js_mul (Finite P)
             (Math_pow (js_add (Finite 1) (js_div (js_div (Finite R) (Finite 100)) (Finite 4)))
                (js_mul (Finite 4) (js_div (Finite T) (Finite 12)))))
          (Finite 100) = Finite v"
    using r1(1) r2(1) b(1) t(1) n(1) w(1) m(1) v(1) b0 n0 by simp
  with err show ?thesis by blast
qed

lemma round_near:
  fixes v z :: real
  assumes err: "\<bar>v - z\<bar> \<le> 1 / 32"
  shows "\<bar>of_int \<lfloor>v + 1 / 2\<rfloor> - z\<bar> \<le> 17 / 32"
    and "\<lfloor>v + 1 / 2\<rfloor> = \<lfloor>z + 1 / 2\<rfloor> \<or> \<bar>frac z - 1 / 2\<bar> \<le> 1 / 32"
proof -
  have "of_int \<lfloor>v + 1 / 2\<rfloor> \<le> v + 1 / 2" "v + 1 / 2 < of_int \<lfloor>v + 1 / 2\<rfloor> + 1"
    by linarith+
  with err show "\<bar>of_int \<lfloor>v + 1 / 2\<rfloor> - z\<bar> \<le> 17 / 32" by linarith
  define a where "a = \<lfloor>z\<rfloor>"
  have a: "of_int a \<le> z" "z < of_int a + 1" unfolding a_def by linarith+
  have f: "frac z = z - of_int a" by (simp add: frac_def a_def)
  consider "frac z < 1 / 2 - 1 / 32" | "1 / 2 + 1 / 32 < frac z" | "\<bar>frac z - 1 / 2\<bar> \<le> 1 / 32"
    by linarith
  then show "\<lfloor>v + 1 / 2\<rfloor> = \<lfloor>z + 1 / 2\<rfloor> \<or> \<bar>frac z - 1 / 2\<bar> \<le> 1 / 32"
  proof cases
    case 1
    have "\<lfloor>z + 1 / 2\<rfloor> = a" using 1 a f by (intro floor_unique) linarith+
    moreover have "\<lfloor>v + 1 / 2\<rfloor> = a" using 1 a f err by (intro floor_unique) linarith+
    ultimately show ?thesis by simp
  next
    case 2
    have "\<lfloor>z + 1 / 2\<rfloor> = a + 1"
      using 2 a f by (intro floor_unique; simp only: of_int_add of_int_1; linarith)
    moreover have "\<lfloor>v + 1 / 2\<rfloor> = a + 1"
      using 2 a f err by (intro floor_unique; simp only: of_int_add of_int_1; linarith)
    ultimately show ?thesis by simp
  next
    case 3
    then show ?thesis by simp
  qed
qed

subsection \<open>C5: the maturity amount\<close>

text \<open>
  C5, as stated, fails. For 1000 at 6% over 6 months the formula is
  \<open>1000 \<times> 1.015\<^sup>2 = 1030.225\<close>, which rounded to two decimals is 1030.23. The doubles of
  the code give 103022.49999999997 for the amount times 100, which \<^verbatim>\<open>Math.round\<close>
  takes to 103022: the result is 1030.22 (the double nearest to it).
\<close>

theorem maturity_amount_counterexample:
  "calculateMaturityAmount (Finite 1000) (Finite 6) (Finite 6)
     = js_div (Finite 103022) (Finite 100)
   \<and> spec_maturity_amount 1000 6 6 = 103023 / 100
   \<and> js_less (js_div (Finite 103022) (Finite 100)) (js_div (Finite 103023) (Finite 100))"
proof -
  have "spec_maturity_amount 1000 6 6 = 103023 / 100"
    by (simp add: spec_maturity_amount_def exact_maturity_amount_def round2_def power_divide)
  then show ?thesis
    by (simp add: tie_maturity_amount tie_10 cents_1 del: js_arith)
qed

text \<open>
  C5, amended: for a principal from 1000 to 10000000, a rate from 0.1 to 50 and a tenure
  from 6 to 120 months (the ranges of the route's schema), \<^verbatim>\<open>calculateMaturityAmount\<close>,
  a function of the three values alone, returns the double nearest to a whole number of
  cents \<open>k / 100\<close>, where \<open>k\<close> differs from one hundred times
  \<open>principal \<times> (1 + rate/400)\<close> to the power \<open>4 \<times> tenure_months / 12\<close> by at most
  \<open>1/2 + 1/32\<close>; \<open>k / 100\<close> is that formula rounded to two decimals unless the formula,
  in cents, lies within \<open>1/32\<close> of a half cent. Principal 100000 at 8% for 12 months
  gives the double nearest to 108243.22.
\<close>

theorem maturity_amount_within_cent:
  assumes "1000 \<le> P" "P \<le> 10000000" and "1 / 10 \<le> R" "R \<le> 50" and "6 \<le> T" "T \<le> 120"
  shows "(\<exists>k. calculateMaturityAmount (Finite P) (Finite R) (Finite T)
                = js_div (Finite (of_int k)) (Finite 100)
              \<and> \<bar>of_int k - 100 * exact_maturity_amount P R T\<bar> \<le> 17 / 32
              \<and> (of_int k / 100 = spec_maturity_amount P R T
                  \<or> \<bar>frac (100 * exact_maturity_amount P R T) - 1 / 2\<bar> \<le> 1 / 32))
         \<and> calculateMaturityAmount (Finite 100000) (Finite 8) (Finite 12)
             = js_div (Finite 10824322) (Finite 100)"
proof -
  define z where "z = 100 * exact_maturity_amount P R T"
  from maturity_error[OF assms] obtain v where
    v: "js_mul
          (js_mul (Finite P)
             (Math_pow (js_add (Finite 1) (js_div (js_div (Finite R) (Finite 100)) (Finite 4)))
                (js_mul (Finite 4) (js_div (Finite T) (Finite 12)))))
          (Finite 100) = Finite v"
      and err: "\<bar>v - z\<bar> \<le> 1 / 32"
    unfolding z_def by blast
  have "0 < P" "0 < R" "0 < T" using assms by simp_all
  then have "calculateMaturityAmount (Finite P) (Finite R) (Finite T)
      = js_div (Math_round (Finite v)) (Finite 100)"
    by (simp only: calculateMaturityAmount_in_cents in_cents_def v)
  then have 1: "calculateMaturityAmount (Finite P) (Finite R) (Finite T)
      = js_div (Finite (of_int \<lfloor>v + 1 / 2\<rfloor>)) (Finite 100)"
    by (simp only: Math_round.simps)
  have 2: "\<bar>of_int \<lfloor>v + 1 / 2\<rfloor> - z\<bar> \<le> 17 / 32"
    using err by (rule round_near)
  have "\<lfloor>v + 1 / 2\<rfloor> = \<lfloor>z + 1 / 2\<rfloor> \<or> \<bar>frac z - 1 / 2\<bar> \<le> 1 / 32"
    using err by (rule round_near)
  moreover have "spec_maturity_amount P R T = of_int \<lfloor>z + 1 / 2\<rfloor> / 100"
    by (simp add: spec_maturity_amount_def round2_def z_def mult.commute)
  ultimately have 3: "of_int \<lfloor>v + 1 / 2\<rfloor> / 100 = spec_maturity_amount P R T
      \<or> \<bar>frac z - 1 / 2\<bar> \<le> 1 / 32"
    by auto
  from 1 2 3 have "\<exists>k. calculateMaturityAmount (Finite P) (Finite R) (Finite T)
                = js_div (Finite (of_int k)) (Finite 100)
              \<and> \<bar>of_int k - z\<bar> \<le> 17 / 32
              \<and> (of_int k / 100 = spec_maturity_amount P R T \<or> \<bar>frac z - 1 / 2\<bar> \<le> 1 / 32)"
    by blast
  with golden_maturity_amount show ?thesis
    unfolding z_def by (simp only: simp_thms)
qed

text \<open>
  Witness for C5 amended: the deposit of 100000 at 8% for 12 months.
\<close>

theorem maturity_amount_within_cent_witness:
  "(1000::real) \<le> 100000 \<and> (100000::real) \<le> 10000000 \<and> (1 / 10 :: real) \<le> 8
   \<and> (8::real) \<le> 50 \<and> (6::real) \<le> 12 \<and> (12::real) \<le> 120
   \<and> (\<exists>k. calculateMaturityAmount (Finite 100000) (Finite 8) (Finite 12)
             = js_div (Finite (of_int k)) (Finite 100)
           \<and> \<bar>of_int k - 100 * exact_maturity_amount 100000 8 12\<bar> \<le> 17 / 32
           \<and> (of_int k / 100 = spec_maturity_amount 100000 8 12
               \<or> \<bar>frac (100 * exact_maturity_amount 100000 8 12) - 1 / 2\<bar> \<le> 1 / 32))"
proof -
  have r: "(1000::real) \<le> 100000" "(100000::real) \<le> 10000000" "(1 / 10 :: real) \<le> 8"
    "(8::real) \<le> 50" "(6::real) \<le> 12" "(12::real) \<le> 120"
    by simp_all
  from maturity_amount_within_cent[OF r, THEN conjunct1] r show ?thesis
    by (simp only: simp_thms)
qed

section \<open>Share registry: theorems\<close>

lemma totalShares_sum: "totalShares xs = sum_list (map number_of_shares xs)"
proof -
  have "foldl (\<lambda>sum sh. sum + number_of_shares sh) a xs = a + sum_list (map number_of_shares xs)"
    for a
    by (induction xs arbitrary: a) auto
  then show ?thesis by (simp add: totalShares_def)
qed

lemma route_schema_implies_schema: "route_shareTransferSchema d \<Longrightarrow> shareTransferSchema d"
  by (auto simp: route_shareTransferSchema_def shareTransferSchema_def)

lemma single_Some: "single err rows = Some r \<Longrightarrow> single False rows = Some r"
  by (simp add: single_def split: if_splits)

text \<open>What a transfer that answers success has checked and written.\<close>

lemma transfer_success:
  assumes "transfer db_error db d = (Inr b, db')"
  shows "b \<and> shareTransferSchema d
       \<and> (\<exists>fm tm. member_found db (from_member_id d) = Some fm
             \<and> member_found db (to_member_id d) = Some tm
             \<and> member_status fm = ''active'' \<and> member_status tm = ''active'')
       \<and> td_number_of_shares d \<le> active_holdings db (from_member_id d)
       \<and> db' = db\<lparr>share_transactions := share_transactions db @ transfer_rows d\<rparr>"
  using assms
  by (auto simp: transfer_def createTransaction_def Let_def totalShares_sum member_found_def
      active_holdings_def transfer_rows_def
      split: if_splits option.splits prod.splits sum.splits dest: single_Some)

text \<open>A transfer that answers an error has written at most the first row.\<close>

lemma transfer_failure:
  assumes "transfer db_error db d = (Inl e, db')"
  shows "db' = db \<or>
         (e = FailedToCreateTransaction \<and>
          db' = db\<lparr>share_transactions := share_transactions db @ [hd (transfer_rows d)]\<rparr>)"
  using assms
  by (auto simp: transfer_def createTransaction_def Let_def transfer_rows_def
      split: if_splits option.splits prod.splits sum.splits)

lemma transfer_frame_tables:
  "shares (snd (transfer db_error db d)) = shares db
   \<and> members (snd (transfer db_error db d)) = members db"
proof (cases "transfer db_error db d")
  case (Pair res db')
  show ?thesis
  proof (cases res)
    case (Inl e)
    with Pair transfer_failure[of db_error db d e db'] show ?thesis by auto
  next
    case (Inr b)
    with Pair transfer_success[of db_error db d b db'] show ?thesis by auto
  qed
qed

text \<open>The answer of a transfer depends on the members and the shares only.\<close>

lemma transfer_answer_depends:
  assumes "members db2 = members db1" and "shares db2 = shares db1"
  shows "fst (transfer db_error db2 d) = fst (transfer db_error db1 d)"
  using assms
  by (auto simp: transfer_def createTransaction_def Let_def
      split: if_splits option.splits prod.splits sum.splits)

lemma transfer_times_answers:
  "fst (transfer_times n db_error db d) = replicate n (fst (transfer db_error db d))"
proof (induction n arbitrary: db)
  case 0
  then show ?case by simp
next
  case (Suc n)
  obtain res db1 where t: "transfer db_error db d = (res, db1)" by (cases "transfer db_error db d")
  have "members db1 = members db" "shares db1 = shares db"
    using transfer_frame_tables[of db_error db d] t by simp_all
  then have "fst (transfer db_error db1 d) = res"
    using transfer_answer_depends[of db1 db db_error d] t by simp
  with Suc.IH[of db1] t show ?case
    by (auto split: prod.splits)
qed

lemma transfer_times_shares:
  "shares (snd (transfer_times n db_error db d)) = shares db"
proof (induction n arbitrary: db)
  case 0
  then show ?case by simp
next
  case (Suc n)
  obtain res db1 where t: "transfer db_error db d = (res, db1)" by (cases "transfer db_error db d")
  have "shares db1 = shares db"
    using transfer_frame_tables[of db_error db d] t by simp
  with Suc.IH[of db1] t show ?case
    by (auto split: prod.splits)
qed

lemma transfer_members_missing:
  assumes "member_found db (from_member_id d) = None \<or> member_found db (to_member_id d) = None"
  shows "\<exists>e. transfer db_error db d = (Inl e, db)"
proof -
  have "single err rows = None" if "single False rows = None" for err and rows :: "member list"
    using that by (simp add: single_def)
  with assms have
    "single (db_error 0) (filter (\<lambda>m. member_id m = from_member_id d) (members db)) = None
     \<or> single (db_error 1) (filter (\<lambda>m. member_id m = to_member_id d) (members db)) = None"
    by (auto simp: member_found_def)
  then show ?thesis
    by (auto simp: transfer_def split: option.splits)
qed

lemma transfer_members_inactive:
  assumes "member_found db (from_member_id d) = Some fm" "member_found db (to_member_id d) = Some tm"
    and "member_status fm \<noteq> ''active'' \<or> member_status tm \<noteq> ''active''"
  shows "\<exists>e. transfer db_error db d = (Inl e, db)"
proof -
  have "single err rows = None \<or> single err rows = Some m"
    if "single False rows = Some m" for err m and rows :: "member list"
    using that by (simp add: single_def)
  from this[OF assms(1)[unfolded member_found_def], of "db_error 0"]
    this[OF assms(2)[unfolded member_found_def], of "db_error 1"] assms(3)
  show ?thesis
    by (auto simp: transfer_def split: option.splits)
qed

lemma transfer_insufficient:
  assumes "active_holdings db (from_member_id d) < td_number_of_shares d"
  shows "\<exists>e. transfer db_error db d = (Inl e, db)"
proof (cases "transfer db_error db d")
  case (Pair res db')
  show ?thesis
  proof (cases res)
    case (Inr b)
    with Pair transfer_success[of db_error db d b db'] assms show ?thesis by simp
  next
    case (Inl e)
    with Pair assms show ?thesis
      by (auto simp: transfer_def createTransaction_def Let_def totalShares_sum
          active_holdings_def split: if_splits option.splits prod.splits sum.splits)
  qed
qed

lemma transfer_insufficient_error:
  assumes "shareTransferSchema d"
    and "member_found db (from_member_id d) = Some fm" "member_found db (to_member_id d) = Some tm"
    and "member_status fm = ''active''" "member_status tm = ''active''"
    and "\<not> db_error 0" "\<not> db_error 1" "\<not> db_error 2"
    and "active_holdings db (from_member_id d) < td_number_of_shares d"
  shows "transfer db_error db d = (Inl InsufficientShares, db)"
  using assms
  by (simp add: transfer_def member_found_def totalShares_sum active_holdings_def Let_def)

subsection \<open>C9: a share transfer request\<close>

text \<open>
  C9: a share transfer request fails, writing nothing, if the source or the destination
  member is not found, if either is not active, or if the two member ids are equal (the
  validation of the route refuses the request); it fails if the sum of the active
  holdings of the source is less than the number of shares, with the
  insufficient-shares error when the request is valid, both members are found and
  active and the database calls before the check succeed. On success exactly two
  share transactions are appended, \<open>-number_of_shares\<close> and \<open>-price\<close> for the
  source, \<open>+number_of_shares\<close> and \<open>+price\<close> for the destination; the shares table
  is as before and the signed sum of all share movements is unchanged.
\<close>

theorem share_transfer_request:
  "(from_member_id d = to_member_id d \<longrightarrow>
      transferShares db_error db d = (Inl RequestValidationFailed, db))
   \<and> (member_found db (from_member_id d) = None \<or> member_found db (to_member_id d) = None
        \<longrightarrow> (\<exists>e. transferShares db_error db d = (Inl e, db)))
   \<and> ((\<exists>m. member_found db (from_member_id d) = Some m \<and> member_status m \<noteq> ''active'')
        \<or> (\<exists>m. member_found db (to_member_id d) = Some m \<and> member_status m \<noteq> ''active'')
        \<longrightarrow> (\<exists>e. transferShares db_error db d = (Inl e, db)))
   \<and> (active_holdings db (from_member_id d) < td_number_of_shares d
        \<longrightarrow> (\<exists>e. transferShares db_error db d = (Inl e, db))
          \<and> (route_shareTransferSchema d
               \<and> (\<exists>m. member_found db (from_member_id d) = Some m \<and> member_status m = ''active'')
               \<and> (\<exists>m. member_found db (to_member_id d) = Some m \<and> member_status m = ''active'')
               \<and> \<not> db_error 0 \<and> \<not> db_error 1 \<and> \<not> db_error 2
              \<longrightarrow> transferShares db_error db d = (Inl InsufficientShares, db)))
   \<and> (\<forall>b db'. transferShares db_error db d = (Inr b, db') \<longrightarrow>
          share_transactions db' = share_transactions db @ transfer_rows d
          \<and> shares db' = shares db
          \<and> shares_moved db' = shares_moved db)"
proof (intro conjI impI allI)
  assume "from_member_id d = to_member_id d"
  then show "transferShares db_error db d = (Inl RequestValidationFailed, db)"
    by (simp add: transferShares_def route_shareTransferSchema_def)
next
  assume "member_found db (from_member_id d) = None \<or> member_found db (to_member_id d) = None"
  from transfer_members_missing[OF this, of db_error]
  show "\<exists>e. transferShares db_error db d = (Inl e, db)"
    by (auto simp: transferShares_def)
next
  assume a: "(\<exists>m. member_found db (from_member_id d) = Some m \<and> member_status m \<noteq> ''active'')
        \<or> (\<exists>m. member_found db (to_member_id d) = Some m \<and> member_status m \<noteq> ''active'')"
  show "\<exists>e. transferShares db_error db d = (Inl e, db)"
  proof (cases "member_found db (from_member_id d) = None \<or> member_found db (to_member_id d) = None")
    case True
    from transfer_members_missing[OF this, of db_error] show ?thesis
      by (auto simp: transferShares_def)
  next
    case False
    then obtain fm tm where
      "member_found db (from_member_id d) = Some fm" "member_found db (to_member_id d) = Some tm"
      by auto
    with a transfer_members_inactive[of db d fm tm db_error] show ?thesis
      by (auto simp: transferShares_def)
  qed
next
  assume "active_holdings db (from_member_id d) < td_number_of_shares d"
  from transfer_insufficient[OF this, of db_error]
  show "\<exists>e. transferShares db_error db d = (Inl e, db)"
    by (auto simp: transferShares_def)
next
  assume "active_holdings db (from_member_id d) < td_number_of_shares d"
    and "route_shareTransferSchema d
               \<and> (\<exists>m. member_found db (from_member_id d) = Some m \<and> member_status m = ''active'')
               \<and> (\<exists>m. member_found db (to_member_id d) = Some m \<and> member_status m = ''active'')
               \<and> \<not> db_error 0 \<and> \<not> db_error 1 \<and> \<not> db_error 2"
  then show "transferShares db_error db d = (Inl InsufficientShares, db)"
    using transfer_insufficient_error[of d db _ _ db_error] route_schema_implies_schema[of d]
    by (auto simp: transferShares_def)
next
  fix b db'
  assume "transferShares db_error db d = (Inr b, db')"
  then have "transfer db_error db d = (Inr b, db')"
    by (simp add: transferShares_def split: if_splits)
  from transfer_success[OF this]
  have db': "db' = db\<lparr>share_transactions := share_transactions db @ transfer_rows d\<rparr>"
    by simp
  show "share_transactions db' = share_transactions db @ transfer_rows d"
    by (simp add: db')
  show "shares db' = shares db"
    by (simp add: db')
  show "shares_moved db' = shares_moved db"
    by (simp add: db' shares_moved_def transfer_rows_def)
qed

lemma db0_members:
  "member_found db0 11 = Some \<lparr>member_id = 11, member_status = ''active''\<rparr>"
  "member_found db0 12 = Some \<lparr>member_id = 12, member_status = ''active''\<rparr>"
  "member_found db0 13 = Some \<lparr>member_id = 13, member_status = ''suspended''\<rparr>"
  "member_found db0 99 = None"
  "active_holdings db0 11 = 100"
  by (simp_all add: member_found_def single_def db0_def active_holdings_def)

lemma db0_transfer_100:
  "transfer no_db_error db0 (transfer_request 11 12 100) =
     (Inr True, db0\<lparr>share_transactions := transfer_rows (transfer_request 11 12 100)\<rparr>)"
  by (simp add: transfer_def shareTransferSchema_def transfer_request_def single_def db0_def
      no_db_error_def totalShares_def createTransaction_def transfer_rows_def Let_def)

text \<open>
  Witness for C9: member 11 holds 100 active shares, member 12 is active, member 13 is
  suspended, member 99 does not exist. Transfers from 11 to 11, to 99, to 13 and of 150
  shares to 12 fail; the transfer of 100 shares to 12 succeeds with its two rows.
\<close>

theorem share_transfer_request_witness:
  "transferShares no_db_error db0 (transfer_request 11 11 100) = (Inl RequestValidationFailed, db0)
   \<and> (\<exists>e. transferShares no_db_error db0 (transfer_request 11 99 100) = (Inl e, db0))
   \<and> (\<exists>e. transferShares no_db_error db0 (transfer_request 11 13 100) = (Inl e, db0))
   \<and> transferShares no_db_error db0 (transfer_request 11 12 150) = (Inl InsufficientShares, db0)
   \<and> transferShares no_db_error db0 (transfer_request 11 12 100) =
        (Inr True, db0\<lparr>share_transactions := transfer_rows (transfer_request 11 12 100)\<rparr>)
   \<and> shares_moved (db0\<lparr>share_transactions := transfer_rows (transfer_request 11 12 100)\<rparr>)
        = shares_moved db0"
proof -
  have ok: "transferShares no_db_error db0 (transfer_request 11 12 100) =
        (Inr True, db0\<lparr>share_transactions := transfer_rows (transfer_request 11 12 100)\<rparr>)"
    using db0_transfer_100
    by (simp add: transferShares_def route_shareTransferSchema_def transfer_request_def)
  have r150: "route_shareTransferSchema (transfer_request 11 12 150)"
    by (simp add: route_shareTransferSchema_def transfer_request_def)
  have f[simp]: "from_member_id (transfer_request a b n) = a"
    "to_member_id (transfer_request a b n) = b"
    "td_number_of_shares (transfer_request a b n) = n" for a b n
    by (simp_all add: transfer_request_def)
  have "transferShares no_db_error db0 (transfer_request 11 11 100) = (Inl RequestValidationFailed, db0)"
    using share_transfer_request[of "transfer_request 11 11 100" no_db_error db0] by simp
  moreover have "\<exists>e. transferShares no_db_error db0 (transfer_request 11 99 100) = (Inl e, db0)"
    using share_transfer_request[of "transfer_request 11 99 100" no_db_error db0]
    by (simp add: db0_members)
  moreover have "\<exists>e. transferShares no_db_error db0 (transfer_request 11 13 100) = (Inl e, db0)"
    using share_transfer_request[of "transfer_request 11 13 100" no_db_error db0]
    by (simp add: db0_members)
  moreover have "transferShares no_db_error db0 (transfer_request 11 12 150) = (Inl InsufficientShares, db0)"
    using share_transfer_request[of "transfer_request 11 12 150" no_db_error db0] r150
    by (simp add: db0_members no_db_error_def)
  moreover have "shares_moved (db0\<lparr>share_transactions := transfer_rows (transfer_request 11 12 100)\<rparr>)
        = shares_moved db0"
    using share_transfer_request[of "transfer_request 11 12 100" no_db_error db0] ok
    by blast
  ultimately show ?thesis using ok by (intro conjI)
qed

subsection \<open>C10: the holdings after a transfer\<close>

text \<open>
  C10: \<^verbatim>\<open>Share.transfer\<close> never changes the shares table, whatever its answer, so
  the sum of the active holdings of the source that its sufficiency check reads is the
  same afterwards; a successful transfer appends its two share transactions and nothing
  else; and after one successful transfer the same transfer succeeds again any number
  of times, each passing the check of the holdings.
\<close>

theorem transfer_leaves_holdings:
  "shares (snd (transfer db_error db d)) = shares db
   \<and> active_holdings (snd (transfer db_error db d)) (from_member_id d)
       = active_holdings db (from_member_id d)
   \<and> (\<forall>b db1 n. transfer no_db_error db d = (Inr b, db1) \<longrightarrow>
         db1 = db\<lparr>share_transactions := share_transactions db @ transfer_rows d\<rparr>
         \<and> fst (transfer_times n no_db_error db1 d) = replicate n (Inr True)
         \<and> shares (snd (transfer_times n no_db_error db1 d)) = shares db)"
proof (intro conjI allI impI)
  show s: "shares (snd (transfer db_error db d)) = shares db"
    using transfer_frame_tables by simp
  then show "active_holdings (snd (transfer db_error db d)) (from_member_id d)
       = active_holdings db (from_member_id d)"
    by (simp add: active_holdings_def)
next
  fix b db1 n
  assume t: "transfer no_db_error db d = (Inr b, db1)"
  from transfer_success[OF t] have b by simp
  from transfer_success[OF t]
  show "db1 = db\<lparr>share_transactions := share_transactions db @ transfer_rows d\<rparr>" by simp
  have fr: "members db1 = members db" "shares db1 = shares db"
    using transfer_frame_tables[of no_db_error db d] t by simp_all
  then have "fst (transfer no_db_error db1 d) = Inr True"
    using transfer_answer_depends[of db1 db no_db_error d] t \<open>b\<close> by simp
  then show "fst (transfer_times n no_db_error db1 d) = replicate n (Inr True)"
    by (simp add: transfer_times_answers)
  show "shares (snd (transfer_times n no_db_error db1 d)) = shares db"
    using fr by (simp add: transfer_times_shares)
qed

text \<open>
  Witness for C10: member 11 holds 100 shares and transfers 100 shares to member 12;
  five more transfers of the same 100 shares all succeed.
\<close>

theorem transfer_leaves_holdings_witness:
  "transfer no_db_error db0 (transfer_request 11 12 100) =
     (Inr True, db0\<lparr>share_transactions := transfer_rows (transfer_request 11 12 100)\<rparr>)
   \<and> active_holdings db0 11 = 100
   \<and> fst (transfer_times 5 no_db_error
            (db0\<lparr>share_transactions := transfer_rows (transfer_request 11 12 100)\<rparr>)
            (transfer_request 11 12 100))
       = [Inr True, Inr True, Inr True, Inr True, Inr True]"
proof -
  from transfer_leaves_holdings[of no_db_error db0 "transfer_request 11 12 100"] db0_transfer_100
  have "fst (transfer_times 5 no_db_error
            (db0\<lparr>share_transactions := transfer_rows (transfer_request 11 12 100)\<rparr>)
            (transfer_request 11 12 100)) = replicate 5 (Inr True)"
    by blast
  moreover have "replicate 5 x = [x, x, x, x, x]" for x :: "share_error + bool"
    by (simp add: numeral_eq_Suc)
  ultimately show ?thesis
    using db0_transfer_100 db0_members(5) by (simp only: simp_thms)
qed

text \<open>
  The refusal of equal member ids is the route's: \<^verbatim>\<open>Share.transfer\<close> called on its
  own accepts them.
\<close>

lemma transfer_same_member_accepted:
  "transfer no_db_error db0 (transfer_request 11 11 100) =
     (Inr True, db0\<lparr>share_transactions := transfer_rows (transfer_request 11 11 100)\<rparr>)"
  by (simp add: transfer_def shareTransferSchema_def transfer_request_def single_def db0_def
      no_db_error_def totalShares_def createTransaction_def transfer_rows_def Let_def)

section \<open>Dividends: theorems\<close>

lemma update_success:
  assumes "update err db this st t = (Inr data, db')"
  shows "dividend_status data = st \<and> dividend_id data = dividend_id this
       \<and> findById False db' (dividend_id this) = Some data
       \<and> dividend_distributions db' = dividend_distributions db"
proof -
  let ?P = "\<lambda>row. dividend_id row = dividend_id this"
  from assms obtain row where
    row: "single err (filter ?P (dividends db)) = Some row"
    and data: "data = row\<lparr>dividend_status := st, total_dividend_amount := Some t\<rparr>"
    and db': "db' = db\<lparr>dividends := map (\<lambda>r. if ?P r then data else r) (dividends db)\<rparr>"
    by (auto simp: update_def Let_def split: if_splits option.splits)
  from row have one: "filter ?P (dividends db) = [row]"
    by (auto simp: single_def split: if_splits list.splits)
  then have "row \<in> set (filter ?P (dividends db))" by simp
  then have idr: "dividend_id row = dividend_id this" by simp
  have "filter ?P (map (\<lambda>r. if ?P r then data else r) rows) = map (\<lambda>r. data) (filter ?P rows)"
    if "dividend_id data = dividend_id this" for rows
    using that by (induction rows) auto
  with idr data have "filter ?P (dividends db') = map (\<lambda>r. data) (filter ?P (dividends db))"
    by (simp add: db')
  with one have "filter ?P (dividends db') = [data]" by simp
  then show ?thesis
    using data idr db' by (simp add: findById_def single_def)
qed

lemma distribute_not_approved:
  "dividend_status this \<noteq> APPROVED \<Longrightarrow>
     distribute db_error db this = (Inl OnlyApprovedCanBeDistributed, db, this)"
  by (simp add: distribute_def)

lemma distribute_success:
  assumes "distribute db_error db this = (Inr res, db', this')"
  shows "dividend_status this = APPROVED \<and> dividend_status this' = PAID
       \<and> dividend_id this' = dividend_id this
       \<and> findById False db' (dividend_id this) = Some this'
       \<and> dividend_distributions db' = dividend_distributions db @ distributions res"
proof -
  from assms have ap: "dividend_status this = APPROVED"
    by (auto simp: distribute_def split: if_splits)
  from assms ap obtain ds t where
    loop: "distributions_loop this (eligibleMembers db this) [] 0 = Inr (ds, t)"
    and upd: "update (db_error 2) (db\<lparr>dividend_distributions := dividend_distributions db @ ds\<rparr>)
                this PAID t = (Inr this', db')"
    and res: "distributions res = ds"
    by (auto simp: distribute_def Let_def split: if_splits sum.splits prod.splits)
  from update_success[OF upd] ap res show ?thesis by simp
qed

subsection \<open>C7: distributing twice\<close>

text \<open>
  C7: \<^verbatim>\<open>distribute\<close> fails unless the status of the dividend is approved, and
  then before any write (the database and the object are as before); when it succeeds
  the object and its row have the status paid; therefore a second \<^verbatim>\<open>distribute\<close>
  on the paid dividend fails, whatever the database does, and inserts no further
  distribution.
\<close>

theorem distribute_guard:
  "(dividend_status this \<noteq> APPROVED \<longrightarrow>
      distribute db_error db this = (Inl OnlyApprovedCanBeDistributed, db, this))
   \<and> (\<forall>res db' this'. distribute db_error db this = (Inr res, db', this') \<longrightarrow>
          dividend_status this = APPROVED \<and> dividend_status this' = PAID
          \<and> findById False db' (dividend_id this) = Some this'
          \<and> (\<forall>db_error'. distribute db_error' db' this' =
                 (Inl OnlyApprovedCanBeDistributed, db', this')))"
proof (intro conjI impI allI)
  assume "dividend_status this \<noteq> APPROVED"
  then show "distribute db_error db this = (Inl OnlyApprovedCanBeDistributed, db, this)"
    by (rule distribute_not_approved)
next
  fix res db' this' db_error'
  assume ok: "distribute db_error db this = (Inr res, db', this')"
  from distribute_success[OF ok]
  show "dividend_status this = APPROVED" "dividend_status this' = PAID"
    "findById False db' (dividend_id this) = Some this'"
    by simp_all
  then show "distribute db_error' db' this' = (Inl OnlyApprovedCanBeDistributed, db', this')"
    by (simp add: distribute_not_approved)
qed

lemma db0_distribute:
  "distribute no_db_error (db0\<lparr>dividends := [dividend_2024 APPROVED]\<rparr>) (dividend_2024 APPROVED) =
     (Inr \<lparr>total_members = 1, total_amount = 50, distributions = distributions_2024\<rparr>,
      db0\<lparr>dividends := [paid_2024], dividend_distributions := distributions_2024\<rparr>,
      paid_2024)"
  by (simp add: distribute_def eligibleMembers_def update_def single_def db0_def
      dividend_2024_def paid_2024_def distributions_2024_def no_db_error_def Let_def)

text \<open>
  Witness for C7: the approved dividend of 2024 at 5% is distributed to member 11
  (100 shares of value 10, a dividend of 50) and becomes paid; the second call fails
  and leaves the one distribution.
\<close>

theorem distribute_guard_witness:
  "distribute no_db_error (db0\<lparr>dividends := [dividend_2024 APPROVED]\<rparr>) (dividend_2024 APPROVED) =
     (Inr \<lparr>total_members = 1, total_amount = 50, distributions = distributions_2024\<rparr>,
      db0\<lparr>dividends := [paid_2024], dividend_distributions := distributions_2024\<rparr>,
      paid_2024)
   \<and> dividend_status paid_2024 = PAID
   \<and> distribute no_db_error
        (db0\<lparr>dividends := [paid_2024], dividend_distributions := distributions_2024\<rparr>) paid_2024 =
        (Inl OnlyApprovedCanBeDistributed,
         db0\<lparr>dividends := [paid_2024], dividend_distributions := distributions_2024\<rparr>,
         paid_2024)"
proof -
  from distribute_guard[of "dividend_2024 APPROVED" no_db_error
      "db0\<lparr>dividends := [dividend_2024 APPROVED]\<rparr>"] db0_distribute
  have "dividend_status paid_2024 = PAID
    \<and> distribute no_db_error
        (db0\<lparr>dividends := [paid_2024], dividend_distributions := distributions_2024\<rparr>) paid_2024 =
        (Inl OnlyApprovedCanBeDistributed,
         db0\<lparr>dividends := [paid_2024], dividend_distributions := distributions_2024\<rparr>,
         paid_2024)"
    by blast
  with db0_distribute show ?thesis by (intro conjI) simp_all
qed

lemma maybeSingle_at_most_one:
  assumes "length rows \<le> 1"
  shows "(maybeSingle False rows = None) = (rows = [])"
  using assms by (cases rows) (auto simp: maybeSingle_def split: list.splits)

lemma create_duplicate_iff:
  assumes "dividendValidationSchema (new_Dividend new_id data)"
    and "single (db_error 0) (filter (\<lambda>b. bank_id b = data_bank_id data) (banks db)) = Some bank"
    and "bank_status bank = ''active''"
    and "\<not> db_error 1"
    and "length (filter (same_declaration (new_Dividend new_id data)) (dividends db)) \<le> 1"
  shows "(create db_error new_id db data = (Inl DividendAlreadyDeclared, db))
           = (\<exists>row \<in> set (dividends db). same_declaration (new_Dividend new_id data) row)"
proof -
  let ?rows = "filter (same_declaration (new_Dividend new_id data)) (dividends db)"
  have bank': "single (db_error 0)
      (filter (\<lambda>b. bank_id b = dividend_bank_id (new_Dividend new_id data)) (banks db)) = Some bank"
    using assms(2) by (simp add: new_Dividend_def)
  have ex: "(\<exists>row \<in> set (dividends db). same_declaration (new_Dividend new_id data) row)
              = (?rows \<noteq> [])"
    by (auto simp: filter_empty_conv)
  show ?thesis
  proof (cases "?rows = []")
    case True
    then have "maybeSingle (db_error 1) ?rows = None" by (simp add: maybeSingle_def)
    then have "create db_error new_id db data \<noteq> (Inl DividendAlreadyDeclared, db)"
      using assms(1,3) bank' by (simp add: create_def Let_def)
    with True ex show ?thesis by simp
  next
    case False
    with maybeSingle_at_most_one[OF assms(5)] assms(4)
    obtain r where "maybeSingle (db_error 1) ?rows = Some r" by auto
    then have "create db_error new_id db data = (Inl DividendAlreadyDeclared, db)"
      using assms(1,3) bank' by (simp add: create_def Let_def)
    with False ex show ?thesis by simp
  qed
qed

lemma same_declaration_key:
  "same_declaration d v \<Longrightarrow> same_declaration d = same_declaration v"
  by (auto simp: same_declaration_def fun_eq_iff)

text \<open>
  A table with at most one dividend for each year, type and bank stays so under
  \<^verbatim>\<open>Dividend.create\<close>, as long as the duplicate check reaches the database.
\<close>

lemma create_keeps_unique:
  assumes "unique_declarations db" and "\<not> db_error 1"
  shows "unique_declarations (snd (create db_error new_id db data))"
proof (cases "create db_error new_id db data")
  case (Pair res db')
  show ?thesis
  proof (cases res)
    case (Inl e)
    with Pair have "db' = db"
      by (auto simp: create_def Let_def split: if_splits option.splits)
    with Pair assms show ?thesis by simp
  next
    case (Inr v)
    with Pair assms(2) have
      none: "maybeSingle False (filter (same_declaration v) (dividends db)) = None"
      and db': "db' = db\<lparr>dividends := dividends db @ [v]\<rparr>"
      by (auto simp: create_def Let_def split: if_splits option.splits)
    from assms(1) have "length (filter (same_declaration v) (dividends db)) \<le> 1"
      by (simp add: unique_declarations_def)
    from maybeSingle_at_most_one[OF this] none
    have empty: "filter (same_declaration v) (dividends db) = []" by simp
    have "length (filter (same_declaration d) (dividends db @ [v])) \<le> 1" for d
    proof (cases "same_declaration d v")
      case True
      from same_declaration_key[OF this] empty show ?thesis by simp
    next
      case False
      with assms(1) show ?thesis by (simp add: unique_declarations_def)
    qed
    with Pair db' show ?thesis by (simp add: unique_declarations_def)
  qed
qed

subsection \<open>C8: declaring a dividend twice\<close>

text \<open>
  C8, as stated, fails. The claim says that only a dividend that is not cancelled
  blocks a new declaration for the same year and type, so that declaring after a
  cancellation succeeds. The duplicate check of \<^verbatim>\<open>Dividend.create\<close> has no
  condition on the status: the annual dividend of 2024 is declared, then cancelled, and
  the second declaration of an annual dividend of 2024 for the same bank fails with the
  duplicate error.
\<close>

theorem duplicate_counterexample:
  "create no_db_error 30 db0 annual_2024 =
     (Inr (dividend_2024 PENDING), db0\<lparr>dividends := [dividend_2024 PENDING]\<rparr>)
   \<and> cancel no_db_error (db0\<lparr>dividends := [dividend_2024 PENDING]\<rparr>) (dividend_2024 PENDING) =
        (Inr (dividend_2024 CANCELLED), db0\<lparr>dividends := [dividend_2024 CANCELLED]\<rparr>)
   \<and> create no_db_error 31 (db0\<lparr>dividends := [dividend_2024 CANCELLED]\<rparr>) annual_2024 =
        (Inl DividendAlreadyDeclared, db0\<lparr>dividends := [dividend_2024 CANCELLED]\<rparr>)"
  by (simp add: create_def cancel_def new_Dividend_def dividendValidationSchema_def
      single_def maybeSingle_def same_declaration_def set_status_def db0_def annual_2024_def
      dividend_2024_def no_db_error_def Let_def)

text \<open>
  C8, amended: for valid data and an active bank, when the duplicate check reaches the
  database and the table has at most one dividend for that year, type and bank,
  \<^verbatim>\<open>Dividend.create\<close> fails with the duplicate error, writing nothing, exactly when
  a dividend for the same year and type exists for the same bank, whatever its status,
  cancelled included.
\<close>

theorem duplicate_declaration:
  assumes "dividendValidationSchema (new_Dividend new_id data)"
    and "single (db_error 0) (filter (\<lambda>b. bank_id b = data_bank_id data) (banks db)) = Some bank"
    and "bank_status bank = ''active''"
    and "\<not> db_error 1"
    and "length (filter (same_declaration (new_Dividend new_id data)) (dividends db)) \<le> 1"
  shows "(create db_error new_id db data = (Inl DividendAlreadyDeclared, db))
           = (\<exists>row \<in> set (dividends db).
                 dividend_year row = data_dividend_year data
                 \<and> dividend_type row = data_dividend_type data
                 \<and> dividend_bank_id row = data_bank_id data)"
  using create_duplicate_iff[OF assms]
  by (simp add: same_declaration_def new_Dividend_def)

text \<open>
  Witness for C8 amended: with the cancelled annual dividend of 2024 in the table the
  declaration fails with the duplicate error; with an empty table it does not.
\<close>

theorem duplicate_declaration_witness:
  "create no_db_error 31 (db0\<lparr>dividends := [dividend_2024 CANCELLED]\<rparr>) annual_2024 =
        (Inl DividendAlreadyDeclared, db0\<lparr>dividends := [dividend_2024 CANCELLED]\<rparr>)
   \<and> create no_db_error 30 db0 annual_2024 \<noteq> (Inl DividendAlreadyDeclared, db0)"
proof -
  have v: "dividendValidationSchema (new_Dividend i annual_2024)" for i
    by (simp add: dividendValidationSchema_def new_Dividend_def annual_2024_def)
  have b: "single (no_db_error 0)
             (filter (\<lambda>b. bank_id b = data_bank_id annual_2024) (banks (db0\<lparr>dividends := rows\<rparr>)))
           = Some \<lparr>bank_id = 10, bank_status = ''active''\<rparr>" for rows
    by (simp add: single_def db0_def annual_2024_def no_db_error_def)
  have b0: "single (no_db_error 0)
             (filter (\<lambda>b. bank_id b = data_bank_id annual_2024) (banks db0))
           = Some \<lparr>bank_id = 10, bank_status = ''active''\<rparr>"
    by (simp add: single_def db0_def annual_2024_def no_db_error_def)
  have n: "\<not> no_db_error 1" by (simp add: no_db_error_def)
  have "create no_db_error 31 (db0\<lparr>dividends := [dividend_2024 CANCELLED]\<rparr>) annual_2024 =
        (Inl DividendAlreadyDeclared, db0\<lparr>dividends := [dividend_2024 CANCELLED]\<rparr>)"
    using duplicate_declaration[OF v b _ n, of 31 "[dividend_2024 CANCELLED]"]
    by (simp add: dividend_2024_def annual_2024_def)
  moreover have "create no_db_error 30 db0 annual_2024 \<noteq> (Inl DividendAlreadyDeclared, db0)"
    using duplicate_declaration[OF v b0 _ n, of 30]
    by (simp add: db0_def)
  ultimately show ?thesis by (intro conjI)
qed

end
